theory Spec2Isabelle
  imports Main "HOL-Library.AList"
begin

section \<open>JSON documents as encoding/json reads them\<close>

text \<open>
  A number literal: a plain integer literal, or a literal with a fraction or an exponent.
  Of the latter only one fact is kept, whether it fits a float64.
\<close>

datatype numlit = IntLit int | FracLit bool

text \<open>
  A JSON value. The members of an object stay in the order of the text, duplicates
  included: the decoder visits them one after the other. Strings are byte strings
  (UTF-8).
\<close>

datatype json =
    JNull
  | JBool bool
  | JNumber numlit
  | JString string
  | JArray "json list"
  | JObject "(string \<times> json) list"

text \<open>
  A byte slice handed to a decoder, up to what the decoder can tell apart: of length
  zero, not the text of a JSON value, or the text of the value \<open>j\<close>.
\<close>

datatype input = Empty | Malformed | Doc json

text \<open>
  The errors. Those of package types (MessageParseError, JSONDecodeError,
  CLIConnectionError, ProcessError) are declared in a file that is not among the
  sources; each constructor below keeps the arguments of the constructor call in the
  source: message, then type or raw data or exit code, then cause.
  \<open>Errorf\<close> is \<open>fmt.Errorf\<close> of a constant text, \<open>ErrorfWrap\<close> one
  that ends in \<open>: %w\<close> (the wrapped error is the second argument), and
  \<open>IndexedError i e\<close> is
  \<open>fmt.Errorf("failed to parse content block at index %d: %w", i, e)\<close>.
  \<open>Panic\<close> stands for a run-time panic.
\<close>

datatype go_error =
    EOF
  | ErrTooLong
  | ErrClosedPipe
  | OSError string
  | ExitError int
  | SyntaxError
  | UnmarshalTypeError string string
  | Errorf string
  | ErrorfWrap string go_error
  | IndexedError nat go_error
  | MessageParseError string "string option" "go_error option"
  | JSONDecodeError string input "go_error option"
  | CLIConnectionError string "go_error option"
  | ProcessError string "int option" "go_error option"
  | Panic string

definition IsMessageParseError :: "go_error \<Rightarrow> bool" where
  "IsMessageParseError e = (case e of MessageParseError m t c \<Rightarrow> True | _ \<Rightarrow> False)"

definition IsJSONDecodeError :: "go_error \<Rightarrow> bool" where
  "IsJSONDecodeError e = (case e of JSONDecodeError m r c \<Rightarrow> True | _ \<Rightarrow> False)"

subsection \<open>Matching an object key with a struct field\<close>

text \<open>
  encoding/json matches a key with a field name exactly or, failing that, up to case
  folding. Folding maps ASCII letters to upper case, the Kelvin sign (E2 84 AA in
  UTF-8) to K and the long s (C5 BF) to S; no other character folds to an ASCII one, so
  on names made of ASCII characters the comparison below is the library's.
\<close>

definition upper :: "char \<Rightarrow> char" where
  "upper c = (let n = (of_char c :: nat) in if 97 \<le> n \<and> n \<le> 122 then char_of (n - 32) else c)"

fun foldName :: "string \<Rightarrow> string" where
  "foldName [] = []"
| "foldName [a] = [upper a]"
| "foldName [a, b] =
     (if a = CHR 0xC5 \<and> b = CHR 0xBF then [CHR ''S''] else upper a # foldName [b])"
| "foldName (a # b # c # cs) =
     (if a = CHR 0xE2 \<and> b = CHR 0x84 \<and> c = CHR 0xAA then CHR ''K'' # foldName cs
      else if a = CHR 0xC5 \<and> b = CHR 0xBF then CHR ''S'' # foldName (c # cs)
      else upper a # foldName (b # c # cs))"

definition find_field :: "string list \<Rightarrow> string \<Rightarrow> string option" where
  "find_field names key =
     (if key \<in> set names then Some key
      else find (\<lambda>n. foldName n = foldName key) names)"

subsection \<open>Decoding a value into a Go type\<close>

definition json_kind :: "json \<Rightarrow> string" where
  "json_kind j = (case j of JNull \<Rightarrow> ''null'' | JBool b \<Rightarrow> ''bool'' | JNumber n \<Rightarrow> ''number''
     | JString s \<Rightarrow> ''string'' | JArray xs \<Rightarrow> ''array'' | JObject ms \<Rightarrow> ''object'')"

definition fits_float64 :: "numlit \<Rightarrow> bool" where
  "fits_float64 n = (case n of IntLit i \<Rightarrow> \<bar>i\<bar> < 2 ^ 1024 - 2 ^ 970 | FracLit ok \<Rightarrow> ok)"

text \<open>
  The values an \<open>interface{}\<close> holds after decoding: nil, bool, float64 (kept as
  its literal), string, \<open>[]interface{}\<close> and \<open>map[string]interface{}\<close> (an
  association list with one entry per key, the last member of a key winning).
\<close>

datatype goval =
    GNil
  | GBool bool
  | GFloat numlit
  | GString string
  | GSlice "goval list"
  | GMap "(string \<times> goval) list"

fun to_interface :: "json \<Rightarrow> goval option"
  and to_slice :: "json list \<Rightarrow> goval list option"
  and to_map :: "(string \<times> json) list \<Rightarrow> (string \<times> goval) list \<Rightarrow> (string \<times> goval) list option"
where
  "to_interface JNull = Some GNil"
| "to_interface (JBool b) = Some (GBool b)"
| "to_interface (JNumber n) = (if fits_float64 n then Some (GFloat n) else None)"
| "to_interface (JString s) = Some (GString s)"
| "to_interface (JArray xs) = map_option GSlice (to_slice xs)"
| "to_interface (JObject ms) = map_option GMap (to_map ms [])"
| "to_slice [] = Some []"
| "to_slice (x # xs) =
     (case to_interface x of None \<Rightarrow> None
      | Some v \<Rightarrow> map_option ((#) v) (to_slice xs))"
| "to_map [] acc = Some acc"
| "to_map ((k, x) # ms) acc =
     (case to_interface x of None \<Rightarrow> None
      | Some v \<Rightarrow> to_map ms (AList.update k v acc))"

text \<open>
  Storing a value into a field: \<open>Inr\<close> the new content of the field, \<open>Inl\<close> the
  UnmarshalTypeError. JSON null leaves a string, an int or a bool as it is and sets a
  pointer, a map or an interface to nil.
\<close>

definition string_into :: "string \<Rightarrow> json \<Rightarrow> string \<Rightarrow> go_error + string" where
  "string_into f v old = (case v of JString s \<Rightarrow> Inr s | JNull \<Rightarrow> Inr old
     | _ \<Rightarrow> Inl (UnmarshalTypeError (json_kind v) f))"

definition string_ptr_into :: "string \<Rightarrow> json \<Rightarrow> string option \<Rightarrow> go_error + string option" where
  "string_ptr_into f v old = (case v of JString s \<Rightarrow> Inr (Some s) | JNull \<Rightarrow> Inr None
     | _ \<Rightarrow> Inl (UnmarshalTypeError (json_kind v) f))"

definition int_into :: "string \<Rightarrow> json \<Rightarrow> int \<Rightarrow> go_error + int" where
  "int_into f v old = (case v of
       JNumber (IntLit i) \<Rightarrow>
         (if - (2 ^ 63) \<le> i \<and> i < 2 ^ 63 then Inr i else Inl (UnmarshalTypeError ''number'' f))
     | JNull \<Rightarrow> Inr old
     | _ \<Rightarrow> Inl (UnmarshalTypeError (json_kind v) f))"

definition bool_into :: "string \<Rightarrow> json \<Rightarrow> bool \<Rightarrow> go_error + bool" where
  "bool_into f v old = (case v of JBool b \<Rightarrow> Inr b | JNull \<Rightarrow> Inr old
     | _ \<Rightarrow> Inl (UnmarshalTypeError (json_kind v) f))"

definition bool_ptr_into :: "string \<Rightarrow> json \<Rightarrow> bool option \<Rightarrow> go_error + bool option" where
  "bool_ptr_into f v old = (case v of JBool b \<Rightarrow> Inr (Some b) | JNull \<Rightarrow> Inr None
     | _ \<Rightarrow> Inl (UnmarshalTypeError (json_kind v) f))"

definition float_ptr_into :: "string \<Rightarrow> json \<Rightarrow> numlit option \<Rightarrow> go_error + numlit option" where
  "float_ptr_into f v old = (case v of
       JNumber n \<Rightarrow> (if fits_float64 n then Inr (Some n) else Inl (UnmarshalTypeError ''number'' f))
     | JNull \<Rightarrow> Inr None
     | _ \<Rightarrow> Inl (UnmarshalTypeError (json_kind v) f))"

definition interface_into :: "string \<Rightarrow> json \<Rightarrow> goval \<Rightarrow> go_error + goval" where
  "interface_into f v old = (case to_interface v of Some g \<Rightarrow> Inr g
     | None \<Rightarrow> Inl (UnmarshalTypeError ''number'' f))"

text \<open>A map field: nil is \<open>GNil\<close>; an object is merged into the map already there.\<close>

definition map_into :: "string \<Rightarrow> json \<Rightarrow> goval \<Rightarrow> go_error + goval" where
  "map_into f v old = (case v of
       JObject ms \<Rightarrow>
         (case to_map ms (case old of GMap m \<Rightarrow> m | _ \<Rightarrow> []) of
            Some m \<Rightarrow> Inr (GMap m)
          | None \<Rightarrow> Inl (UnmarshalTypeError ''number'' f))
     | JNull \<Rightarrow> Inr GNil
     | _ \<Rightarrow> Inl (UnmarshalTypeError (json_kind v) f))"

text \<open>
  Decoding an object into a struct: the members in order, each stored into the field
  its key matches and skipped when it matches none; the first type error is the one
  returned. \<open>names\<close> are the JSON names of the fields, \<open>store\<close> stores into one.
\<close>

fun object_into ::
  "string list \<Rightarrow> (string \<Rightarrow> json \<Rightarrow> 's \<Rightarrow> go_error + 's) \<Rightarrow> (string \<times> json) list \<Rightarrow> 's \<Rightarrow> go_error + 's"
where
  "object_into names store [] s = Inr s"
| "object_into names store ((k, v) # ms) s =
     (case find_field names k of
        None \<Rightarrow> object_into names store ms s
      | Some f \<Rightarrow>
          (case store f v s of
             Inl e \<Rightarrow> Inl e
           | Inr s' \<Rightarrow> object_into names store ms s'))"

definition struct_into ::
  "string list \<Rightarrow> (string \<Rightarrow> json \<Rightarrow> 's \<Rightarrow> go_error + 's) \<Rightarrow> json \<Rightarrow> 's \<Rightarrow> go_error + 's"
where
  "struct_into names store j s = (case j of
       JObject ms \<Rightarrow> object_into names store ms s
     | JNull \<Rightarrow> Inr s
     | _ \<Rightarrow> Inl (UnmarshalTypeError (json_kind j) []))"

text \<open>\<open>json.Unmarshal(data, &s)\<close> for a struct \<open>s\<close> without a decoding method of its own.\<close>

definition Unmarshal ::
  "string list \<Rightarrow> (string \<Rightarrow> json \<Rightarrow> 's \<Rightarrow> go_error + 's) \<Rightarrow> input \<Rightarrow> 's \<Rightarrow> go_error + 's"
where
  "Unmarshal names store data s = (case data of
       Doc j \<Rightarrow> struct_into names store j s
     | _ \<Rightarrow> Inl SyntaxError)"

section \<open>Content blocks and messages (package types)\<close>

record TextBlock =
  tb_Type :: string
  tb_Text :: string

record ThinkingBlock =
  th_Type :: string
  th_Thinking :: string
  th_Signature :: string

record ToolUseBlock =
  tu_Type :: string
  tu_ID :: string
  tu_Name :: string
  tu_Input :: goval

record ToolResultBlock =
  tr_Type :: string
  tr_ToolUseID :: string
  tr_Content :: goval
  tr_IsError :: "bool option"

datatype ContentBlock =
    TextBlockV TextBlock
  | ThinkingBlockV ThinkingBlock
  | ToolUseBlockV ToolUseBlock
  | ToolResultBlockV ToolResultBlock

definition TextBlock_store :: "string \<Rightarrow> json \<Rightarrow> TextBlock \<Rightarrow> go_error + TextBlock" where
  "TextBlock_store f v s =
     (if f = ''type'' then map_sum id (\<lambda>x. s\<lparr>tb_Type := x\<rparr>) (string_into f v (tb_Type s))
      else map_sum id (\<lambda>x. s\<lparr>tb_Text := x\<rparr>) (string_into f v (tb_Text s)))"

definition ThinkingBlock_store :: "string \<Rightarrow> json \<Rightarrow> ThinkingBlock \<Rightarrow> go_error + ThinkingBlock" where
  "ThinkingBlock_store f v s =
     (if f = ''type'' then map_sum id (\<lambda>x. s\<lparr>th_Type := x\<rparr>) (string_into f v (th_Type s))
      else if f = ''thinking'' then map_sum id (\<lambda>x. s\<lparr>th_Thinking := x\<rparr>) (string_into f v (th_Thinking s))
      else map_sum id (\<lambda>x. s\<lparr>th_Signature := x\<rparr>) (string_into f v (th_Signature s)))"

definition ToolUseBlock_store :: "string \<Rightarrow> json \<Rightarrow> ToolUseBlock \<Rightarrow> go_error + ToolUseBlock" where
  "ToolUseBlock_store f v s =
     (if f = ''type'' then map_sum id (\<lambda>x. s\<lparr>tu_Type := x\<rparr>) (string_into f v (tu_Type s))
      else if f = ''id'' then map_sum id (\<lambda>x. s\<lparr>tu_ID := x\<rparr>) (string_into f v (tu_ID s))
      else if f = ''name'' then map_sum id (\<lambda>x. s\<lparr>tu_Name := x\<rparr>) (string_into f v (tu_Name s))
      else map_sum id (\<lambda>x. s\<lparr>tu_Input := x\<rparr>) (map_into f v (tu_Input s)))"

definition ToolResultBlock_store :: "string \<Rightarrow> json \<Rightarrow> ToolResultBlock \<Rightarrow> go_error + ToolResultBlock" where
  "ToolResultBlock_store f v s =
     (if f = ''type'' then map_sum id (\<lambda>x. s\<lparr>tr_Type := x\<rparr>) (string_into f v (tr_Type s))
      else if f = ''tool_use_id'' then map_sum id (\<lambda>x. s\<lparr>tr_ToolUseID := x\<rparr>) (string_into f v (tr_ToolUseID s))
      else if f = ''content'' then map_sum id (\<lambda>x. s\<lparr>tr_Content := x\<rparr>) (interface_into f v (tr_Content s))
      else map_sum id (\<lambda>x. s\<lparr>tr_IsError := x\<rparr>) (bool_ptr_into f v (tr_IsError s)))"

text \<open>
  The probe \<open>var typeCheck struct { Type string `json:"type"` }\<close>: the struct is
  its one field.
\<close>

definition typeCheck :: "input \<Rightarrow> go_error + string" where
  "typeCheck data = Unmarshal [''type''] string_into data []"

definition UnmarshalContentBlock :: "input \<Rightarrow> go_error + ContentBlock" where
  "UnmarshalContentBlock data =
     (case typeCheck data of
        Inl err \<Rightarrow> Inl (JSONDecodeError ''failed to determine content block type'' data (Some err))
      | Inr ty \<Rightarrow>
          if ty = ''text'' then
            (case Unmarshal [''type'', ''text''] TextBlock_store data \<lparr>tb_Type = [], tb_Text = []\<rparr> of
               Inl err \<Rightarrow> Inl (JSONDecodeError ''failed to unmarshal text block'' data (Some err))
             | Inr block \<Rightarrow> Inr (TextBlockV block))
          else if ty = ''thinking'' then
            (case Unmarshal [''type'', ''thinking'', ''signature''] ThinkingBlock_store data
                    \<lparr>th_Type = [], th_Thinking = [], th_Signature = []\<rparr> of
               Inl err \<Rightarrow> Inl (JSONDecodeError ''failed to unmarshal thinking block'' data (Some err))
             | Inr block \<Rightarrow> Inr (ThinkingBlockV block))
          else if ty = ''tool_use'' then
            (case Unmarshal [''type'', ''id'', ''name'', ''input''] ToolUseBlock_store data
                    \<lparr>tu_Type = [], tu_ID = [], tu_Name = [], tu_Input = GNil\<rparr> of
               Inl err \<Rightarrow> Inl (JSONDecodeError ''failed to unmarshal tool_use block'' data (Some err))
             | Inr block \<Rightarrow> Inr (ToolUseBlockV block))
          else if ty = ''tool_result'' then
            (case Unmarshal [''type'', ''tool_use_id'', ''content'', ''is_error''] ToolResultBlock_store data
                    \<lparr>tr_Type = [], tr_ToolUseID = [], tr_Content = GNil, tr_IsError = None\<rparr> of
               Inl err \<Rightarrow> Inl (JSONDecodeError ''failed to unmarshal tool_result block'' data (Some err))
             | Inr block \<Rightarrow> Inr (ToolResultBlockV block))
          else Inl (MessageParseError ''unknown content block type'' (Some ty) None))"

text \<open>
  The loop both message decoders run over their raw blocks: each block through
  \<open>UnmarshalContentBlock\<close>, the first error returned as it is.
\<close>

fun unmarshal_blocks :: "json list \<Rightarrow> go_error + ContentBlock list" where
  "unmarshal_blocks [] = Inr []"
| "unmarshal_blocks (rawBlock # rest) =
     (case UnmarshalContentBlock (Doc rawBlock) of
        Inl err \<Rightarrow> Inl err
      | Inr block \<Rightarrow> map_sum id ((#) block) (unmarshal_blocks rest))"

text \<open>\<open>UserMessage.Content\<close> is an \<open>interface{}\<close>: nil, a string or a slice of blocks.\<close>

datatype content = NoContent | ContentString string | ContentBlocks "ContentBlock list"

record UserMessage =
  um_Type :: string
  um_Content :: content
  um_ParentToolUseID :: "string option"

text \<open>
  The auxiliary struct of \<open>UserMessage.UnmarshalJSON\<close>: its own field
  \<open>Content json.RawMessage\<close> hides the one of the embedded alias, whose other fields
  are those of the message. A raw message is a byte slice: of length zero until a
  member is stored, then the text of that member's value (null included).
\<close>

record UserAux =
  ua_Content :: input
  ua_Type :: string
  ua_ParentToolUseID :: "string option"

definition UserAux_store :: "string \<Rightarrow> json \<Rightarrow> UserAux \<Rightarrow> go_error + UserAux" where
  "UserAux_store f v s =
     (if f = ''content'' then Inr (s\<lparr>ua_Content := Doc v\<rparr>)
      else if f = ''type'' then map_sum id (\<lambda>x. s\<lparr>ua_Type := x\<rparr>) (string_into f v (ua_Type s))
      else map_sum id (\<lambda>x. s\<lparr>ua_ParentToolUseID := x\<rparr>) (string_ptr_into f v (ua_ParentToolUseID s)))"

text \<open>\<open>json.Unmarshal(raw, &contentStr)\<close> and \<open>json.Unmarshal(raw, &contentArr)\<close>.\<close>

definition Unmarshal_string :: "input \<Rightarrow> go_error + string" where
  "Unmarshal_string raw = (case raw of Doc v \<Rightarrow> string_into [] v [] | _ \<Rightarrow> Inl SyntaxError)"

definition Unmarshal_raw_list :: "input \<Rightarrow> go_error + json list" where
  "Unmarshal_raw_list raw = (case raw of
       Doc (JArray xs) \<Rightarrow> Inr xs
     | Doc JNull \<Rightarrow> Inr []
     | Doc v \<Rightarrow> Inl (UnmarshalTypeError (json_kind v) [])
     | _ \<Rightarrow> Inl SyntaxError)"

text \<open>
  The method receives the text of a JSON value. On the text \<open>null\<close> the library
  sets the pointer \<open>aux\<close> to nil and the next line dereferences it.
\<close>

definition UserMessage_UnmarshalJSON :: "json \<Rightarrow> go_error + UserMessage" where
  "UserMessage_UnmarshalJSON j =
     (if j = JNull then Inl (Panic ''nil pointer dereference'')
      else case struct_into [''content'', ''type'', ''parent_tool_use_id''] UserAux_store j
                  \<lparr>ua_Content = Empty, ua_Type = [], ua_ParentToolUseID = None\<rparr> of
        Inl err \<Rightarrow> Inl err
      | Inr aux \<Rightarrow>
          (case Unmarshal_string (ua_Content aux) of
             Inr contentStr \<Rightarrow>
               Inr \<lparr>um_Type = ua_Type aux, um_Content = ContentString contentStr,
                    um_ParentToolUseID = ua_ParentToolUseID aux\<rparr>
           | Inl e1 \<Rightarrow>
               (case Unmarshal_raw_list (ua_Content aux) of
                  Inr contentArr \<Rightarrow>
                    (case unmarshal_blocks contentArr of
                       Inl err \<Rightarrow> Inl err
                     | Inr blocks \<Rightarrow>
                         Inr \<lparr>um_Type = ua_Type aux, um_Content = ContentBlocks blocks,
                              um_ParentToolUseID = ua_ParentToolUseID aux\<rparr>)
                | Inl e2 \<Rightarrow> Inl (Errorf ''content must be string or array of content blocks''))))"

record AssistantMessage =
  am_Type :: string
  am_Content :: "ContentBlock list"
  am_Model :: string
  am_ParentToolUseID :: "string option"

record AssistantAux =
  aa_Content :: "json list"
  aa_Type :: string
  aa_Model :: string
  aa_ParentToolUseID :: "string option"

definition AssistantAux_store :: "string \<Rightarrow> json \<Rightarrow> AssistantAux \<Rightarrow> go_error + AssistantAux" where
  "AssistantAux_store f v s =
     (if f = ''content'' then
        (case v of JArray xs \<Rightarrow> Inr (s\<lparr>aa_Content := xs\<rparr>)
         | JNull \<Rightarrow> Inr (s\<lparr>aa_Content := []\<rparr>)
         | _ \<Rightarrow> Inl (UnmarshalTypeError (json_kind v) f))
      else if f = ''type'' then map_sum id (\<lambda>x. s\<lparr>aa_Type := x\<rparr>) (string_into f v (aa_Type s))
      else if f = ''model'' then map_sum id (\<lambda>x. s\<lparr>aa_Model := x\<rparr>) (string_into f v (aa_Model s))
      else map_sum id (\<lambda>x. s\<lparr>aa_ParentToolUseID := x\<rparr>) (string_ptr_into f v (aa_ParentToolUseID s)))"

definition AssistantMessage_UnmarshalJSON :: "json \<Rightarrow> go_error + AssistantMessage" where
  "AssistantMessage_UnmarshalJSON j =
     (if j = JNull then Inl (Panic ''nil pointer dereference'')
      else case struct_into [''content'', ''type'', ''model'', ''parent_tool_use_id''] AssistantAux_store j
                  \<lparr>aa_Content = [], aa_Type = [], aa_Model = [], aa_ParentToolUseID = None\<rparr> of
        Inl err \<Rightarrow> Inl err
      | Inr aux \<Rightarrow>
          (case unmarshal_blocks (aa_Content aux) of
             Inl err \<Rightarrow> Inl err
           | Inr blocks \<Rightarrow>
               Inr \<lparr>am_Type = aa_Type aux, am_Content = blocks, am_Model = aa_Model aux,
                    am_ParentToolUseID = aa_ParentToolUseID aux\<rparr>))"

record SystemMessage =
  sm_Type :: string
  sm_Subtype :: string
  sm_Data :: goval

definition SystemMessage_store :: "string \<Rightarrow> json \<Rightarrow> SystemMessage \<Rightarrow> go_error + SystemMessage" where
  "SystemMessage_store f v s =
     (if f = ''type'' then map_sum id (\<lambda>x. s\<lparr>sm_Type := x\<rparr>) (string_into f v (sm_Type s))
      else if f = ''subtype'' then map_sum id (\<lambda>x. s\<lparr>sm_Subtype := x\<rparr>) (string_into f v (sm_Subtype s))
      else map_sum id (\<lambda>x. s\<lparr>sm_Data := x\<rparr>) (map_into f v (sm_Data s)))"

record ResultMessage =
  rm_Type :: string
  rm_Subtype :: string
  rm_DurationMs :: int
  rm_DurationAPIMs :: int
  rm_IsError :: bool
  rm_NumTurns :: int
  rm_SessionID :: string
  rm_TotalCostUSD :: "numlit option"
  rm_Usage :: goval
  rm_Result :: "string option"

definition ResultMessage_names :: "string list" where
  "ResultMessage_names = [''type'', ''subtype'', ''duration_ms'', ''duration_api_ms'', ''is_error'',
     ''num_turns'', ''session_id'', ''total_cost_usd'', ''usage'', ''result'']"

definition ResultMessage_store :: "string \<Rightarrow> json \<Rightarrow> ResultMessage \<Rightarrow> go_error + ResultMessage" where
  "ResultMessage_store f v s =
     (if f = ''type'' then map_sum id (\<lambda>x. s\<lparr>rm_Type := x\<rparr>) (string_into f v (rm_Type s))
      else if f = ''subtype'' then map_sum id (\<lambda>x. s\<lparr>rm_Subtype := x\<rparr>) (string_into f v (rm_Subtype s))
      else if f = ''duration_ms'' then map_sum id (\<lambda>x. s\<lparr>rm_DurationMs := x\<rparr>) (int_into f v (rm_DurationMs s))
      else if f = ''duration_api_ms'' then map_sum id (\<lambda>x. s\<lparr>rm_DurationAPIMs := x\<rparr>) (int_into f v (rm_DurationAPIMs s))
      else if f = ''is_error'' then map_sum id (\<lambda>x. s\<lparr>rm_IsError := x\<rparr>) (bool_into f v (rm_IsError s))
      else if f = ''num_turns'' then map_sum id (\<lambda>x. s\<lparr>rm_NumTurns := x\<rparr>) (int_into f v (rm_NumTurns s))
      else if f = ''session_id'' then map_sum id (\<lambda>x. s\<lparr>rm_SessionID := x\<rparr>) (string_into f v (rm_SessionID s))
      else if f = ''total_cost_usd'' then map_sum id (\<lambda>x. s\<lparr>rm_TotalCostUSD := x\<rparr>) (float_ptr_into f v (rm_TotalCostUSD s))
      else if f = ''usage'' then map_sum id (\<lambda>x. s\<lparr>rm_Usage := x\<rparr>) (map_into f v (rm_Usage s))
      else map_sum id (\<lambda>x. s\<lparr>rm_Result := x\<rparr>) (string_ptr_into f v (rm_Result s)))"

definition ResultMessage_zero :: ResultMessage where
  "ResultMessage_zero = \<lparr>rm_Type = [], rm_Subtype = [], rm_DurationMs = 0, rm_DurationAPIMs = 0,
     rm_IsError = False, rm_NumTurns = 0, rm_SessionID = [], rm_TotalCostUSD = None,
     rm_Usage = GNil, rm_Result = None\<rparr>"

record StreamEvent =
  se_Type :: string
  se_UUID :: string
  se_SessionID :: string
  se_Event :: goval
  se_ParentToolUseID :: "string option"

definition StreamEvent_store :: "string \<Rightarrow> json \<Rightarrow> StreamEvent \<Rightarrow> go_error + StreamEvent" where
  "StreamEvent_store f v s =
     (if f = ''type'' then map_sum id (\<lambda>x. s\<lparr>se_Type := x\<rparr>) (string_into f v (se_Type s))
      else if f = ''uuid'' then map_sum id (\<lambda>x. s\<lparr>se_UUID := x\<rparr>) (string_into f v (se_UUID s))
      else if f = ''session_id'' then map_sum id (\<lambda>x. s\<lparr>se_SessionID := x\<rparr>) (string_into f v (se_SessionID s))
      else if f = ''event'' then map_sum id (\<lambda>x. s\<lparr>se_Event := x\<rparr>) (map_into f v (se_Event s))
      else map_sum id (\<lambda>x. s\<lparr>se_ParentToolUseID := x\<rparr>) (string_ptr_into f v (se_ParentToolUseID s)))"

datatype Message =
    UserMessageV UserMessage
  | AssistantMessageV AssistantMessage
  | SystemMessageV SystemMessage
  | ResultMessageV ResultMessage
  | StreamEventV StreamEvent

definition GetMessageType :: "Message \<Rightarrow> string" where
  "GetMessageType m = (case m of UserMessageV u \<Rightarrow> um_Type u | AssistantMessageV a \<Rightarrow> am_Type a
     | SystemMessageV s \<Rightarrow> sm_Type s | ResultMessageV r \<Rightarrow> rm_Type r | StreamEventV e \<Rightarrow> se_Type e)"

text \<open>
  \<open>json.Unmarshal(data, &msg)\<close> for a message with a decoding method: the library
  checks the syntax and hands the text to the method.
\<close>

definition Unmarshal_with :: "(json \<Rightarrow> go_error + 'm) \<Rightarrow> input \<Rightarrow> go_error + 'm" where
  "Unmarshal_with method data = (case data of Doc j \<Rightarrow> method j | _ \<Rightarrow> Inl SyntaxError)"

definition UnmarshalMessage :: "input \<Rightarrow> go_error + Message" where
  "UnmarshalMessage data =
     (case typeCheck data of
        Inl err \<Rightarrow> Inl (JSONDecodeError ''failed to determine message type'' data (Some err))
      | Inr ty \<Rightarrow>
          if ty = ''user'' then
            (case Unmarshal_with UserMessage_UnmarshalJSON data of
               Inl err \<Rightarrow> Inl (JSONDecodeError ''failed to unmarshal user message'' data (Some err))
             | Inr msg \<Rightarrow> Inr (UserMessageV msg))
          else if ty = ''assistant'' then
            (case Unmarshal_with AssistantMessage_UnmarshalJSON data of
               Inl err \<Rightarrow> Inl (JSONDecodeError ''failed to unmarshal assistant message'' data (Some err))
             | Inr msg \<Rightarrow> Inr (AssistantMessageV msg))
          else if ty = ''system'' then
            (case Unmarshal [''type'', ''subtype'', ''data''] SystemMessage_store data
                    \<lparr>sm_Type = [], sm_Subtype = [], sm_Data = GNil\<rparr> of
               Inl err \<Rightarrow> Inl (JSONDecodeError ''failed to unmarshal system message'' data (Some err))
             | Inr msg \<Rightarrow> Inr (SystemMessageV msg))
          else if ty = ''result'' then
            (case Unmarshal ResultMessage_names ResultMessage_store data ResultMessage_zero of
               Inl err \<Rightarrow> Inl (JSONDecodeError ''failed to unmarshal result message'' data (Some err))
             | Inr msg \<Rightarrow> Inr (ResultMessageV msg))
          else if ty = ''stream_event'' then
            (case Unmarshal [''type'', ''uuid'', ''session_id'', ''event'', ''parent_tool_use_id'']
                    StreamEvent_store data
                    \<lparr>se_Type = [], se_UUID = [], se_SessionID = [], se_Event = GNil,
                     se_ParentToolUseID = None\<rparr> of
               Inl err \<Rightarrow> Inl (JSONDecodeError ''failed to unmarshal stream event'' data (Some err))
             | Inr msg \<Rightarrow> Inr (StreamEventV msg))
          else Inl (MessageParseError ''unknown message type'' (Some ty) None))"

section \<open>The message parser (package internal)\<close>

text \<open>
  \<open>extractType\<close> returns the empty string with every error, so the error alone is
  the left result.
\<close>

definition extractType :: "input \<Rightarrow> go_error + string" where
  "extractType data =
     (case (case data of
              Doc (JObject ms) \<Rightarrow>
                (case to_map ms [] of Some m \<Rightarrow> Inr m | None \<Rightarrow> Inl (UnmarshalTypeError ''number'' []))
            | Doc JNull \<Rightarrow> Inr []
            | Doc v \<Rightarrow> Inl (UnmarshalTypeError (json_kind v) [])
            | _ \<Rightarrow> Inl SyntaxError) of
        Inl err \<Rightarrow> Inl (ErrorfWrap ''failed to unmarshal JSON for type extraction'' err)
      | Inr m \<Rightarrow>
          (case map_of m ''type'' of
             None \<Rightarrow> Inl (Errorf ''missing type field'')
           | Some typeVal \<Rightarrow>
               (case typeVal of
                  GString typeStr \<Rightarrow> Inr typeStr
                | _ \<Rightarrow> Inl (Errorf ''type field is not a string''))))"

text \<open>
  In the wrapping branch the message is \<open>fmt.Sprintf("failed to parse message: %v", err)\<close>;
  the argument of \<open>%v\<close> is the cause the error carries, and the text kept is the format.
\<close>

definition ParseMessage :: "input \<Rightarrow> go_error + Message" where
  "ParseMessage data =
     (if data = Empty then Inl (MessageParseError ''cannot parse empty message data'' None None)
      else case UnmarshalMessage data of
        Inl err \<Rightarrow>
          if IsMessageParseError err \<or> IsJSONDecodeError err then Inl err
          else Inl (MessageParseError ''failed to parse message: %v''
                      (Some (case extractType data of Inr msgType \<Rightarrow> msgType | Inl e \<Rightarrow> []))
                      (Some err))
      | Inr msg \<Rightarrow> Inr msg)"

definition ParseContentBlock :: "input \<Rightarrow> go_error + ContentBlock" where
  "ParseContentBlock data =
     (if data = Empty then Inl (MessageParseError ''cannot parse empty content block data'' None None)
      else case UnmarshalContentBlock data of
        Inl err \<Rightarrow>
          if IsMessageParseError err \<or> IsJSONDecodeError err then Inl err
          else Inl (MessageParseError ''failed to parse content block: %v''
                      (Some (case extractType data of Inr blockType \<Rightarrow> blockType | Inl e \<Rightarrow> []))
                      (Some err))
      | Inr block \<Rightarrow> Inr block)"

text \<open>
  The loop of \<open>ParseContentBlocks\<close>, from index \<open>i\<close> on; \<open>result\<close> holds the blocks
  appended so far.
\<close>

fun ParseContentBlocks_loop ::
  "nat \<Rightarrow> input list \<Rightarrow> ContentBlock list \<Rightarrow> go_error + ContentBlock list"
where
  "ParseContentBlocks_loop i [] result = Inr result"
| "ParseContentBlocks_loop i (rawBlock # rest) result =
     (case ParseContentBlock rawBlock of
        Inl err \<Rightarrow> Inl (IndexedError i err)
      | Inr block \<Rightarrow> ParseContentBlocks_loop (Suc i) rest (result @ [block]))"

definition ParseContentBlocks :: "input list \<Rightarrow> go_error + ContentBlock list" where
  "ParseContentBlocks blocks =
     (if length blocks = 0 then Inr [] else ParseContentBlocks_loop 0 blocks [])"

section \<open>The line framer (package transport, stream.go)\<close>

subsection \<open>bufio.Scanner with the split function ScanLines\<close>

definition newline :: char where
  "newline = CHR 0x0A"

definition dropCR :: "string \<Rightarrow> string" where
  "dropCR data = (if data \<noteq> [] \<and> last data = CHR 0x0D then butlast data else data)"

definition IndexByte :: "string \<Rightarrow> char \<Rightarrow> nat option" where
  "IndexByte data c = (if c \<in> set data then Some (length (takeWhile (\<lambda>x. x \<noteq> c) data)) else None)"

text \<open>\<open>ScanLines\<close> returns how far to advance and the token, if there is one.\<close>

definition ScanLines :: "string \<Rightarrow> bool \<Rightarrow> nat \<times> string option" where
  "ScanLines data atEOF =
     (if atEOF \<and> length data = 0 then (0, None)
      else case IndexByte data newline of
        Some i \<Rightarrow> (i + 1, Some (dropCR (take i data)))
      | None \<Rightarrow> if atEOF then (length data, Some (dropCR data)) else (0, None))"

text \<open>
  The scanner over a reader. \<open>sc_src\<close> are the bytes the reader has yet to deliver,
  \<open>sc_buf\<close> the bytes read and not yet consumed (\<open>s.buf[s.start:s.end]\<close>) and
  \<open>sc_room\<close> the rest of the buffer, so that \<open>len(s.buf)\<close> is the length of
  \<open>sc_buf\<close> plus \<open>sc_room\<close>. The indices \<open>start\<close> and \<open>end\<close> are not kept:
  the scanner moves the unconsumed bytes to the front of the buffer before it finds the
  buffer full, so the buffer is full exactly when \<open>sc_room\<close> is zero.
\<close>

record Scanner =
  sc_src :: string
  sc_buf :: string
  sc_room :: nat
  maxTokenSize :: nat
  sc_err :: "go_error option"

definition buf_len :: "Scanner \<Rightarrow> nat" where
  "buf_len s = length (sc_buf s) + sc_room s"

text \<open>
  One \<open>Read\<close> of the reader into the free part of the buffer. At the end of the
  input it returns \<open>(0, io.EOF)\<close>; before, it delivers at least one byte and at most
  as many as there is room for. How many is up to the reader (a pipe delivers what has
  arrived): \<open>rd\<close> chooses, given the number of bytes still to come. Since that number
  falls with every read, \<open>rd\<close> can describe any sequence of deliveries.
\<close>

definition Read :: "(nat \<Rightarrow> nat) \<Rightarrow> Scanner \<Rightarrow> Scanner" where
  "Read rd s =
     (if sc_src s = [] then s\<lparr>sc_err := Some EOF\<rparr>
      else let n = min (min (sc_room s) (length (sc_src s))) (Suc (rd (length (sc_src s))))
           in s\<lparr>sc_buf := sc_buf s @ take n (sc_src s), sc_src := drop n (sc_src s),
                sc_room := sc_room s - n\<rparr>)"

text \<open>
  The full buffer is doubled, up to \<open>maxTokenSize\<close> (the guard against overflow of
  the doubling is left out: lengths are natural numbers here).
\<close>

definition grow :: "Scanner \<Rightarrow> Scanner" where
  "grow s =
     (let newSize = (if buf_len s * 2 = 0 then 4096 else buf_len s * 2);
          newSize = min newSize (maxTokenSize s)
      in s\<lparr>sc_room := newSize - length (sc_buf s)\<rparr>)"

text \<open>
  \<open>Scan\<close>: the token (\<open>None\<close> when \<open>Scan\<close> returns false) and the scanner after
  the call. The split function is tried first on what the buffer holds; without a token
  the scanner stops on an error seen before, fails with \<open>ErrTooLong\<close> when the full
  buffer may not grow, and reads more otherwise.
\<close>

function Scan :: "(nat \<Rightarrow> nat) \<Rightarrow> Scanner \<Rightarrow> string option \<times> Scanner" where
  "Scan rd s =
     (case (if sc_buf s \<noteq> [] \<or> sc_err s \<noteq> None
            then ScanLines (sc_buf s) (sc_err s \<noteq> None) else (0, None)) of
        (advance, Some token) \<Rightarrow>
          (Some token, s\<lparr>sc_buf := drop advance (sc_buf s), sc_room := sc_room s + advance\<rparr>)
      | (advance, None) \<Rightarrow>
          if sc_err s \<noteq> None then
            (None, s\<lparr>sc_room := buf_len s, sc_buf := []\<rparr>)
          else if sc_room s = 0 \<and> maxTokenSize s \<le> buf_len s then
            (None, s\<lparr>sc_err := Some ErrTooLong\<rparr>)
          else Scan rd (Read rd (if sc_room s = 0 then grow s else s)))"
  by pat_completeness auto
termination
proof (relation "measure (\<lambda>(rd, s). 2 * length (sc_src s) + (if sc_err s = None then 1 else 0))")
  show "wf (measure (\<lambda>(rd, s). 2 * length (sc_src s) + (if sc_err s = None then 1 else 0)))"
    by simp
next
  fix rd :: "nat \<Rightarrow> nat" and s :: Scanner
  assume live: "\<not> sc_err s \<noteq> None"
    and fits: "\<not> (sc_room s = 0 \<and> maxTokenSize s \<le> buf_len s)"
  define s1 where "s1 = (if sc_room s = 0 then grow s else s)"
  have room: "0 < sc_room s1"
    using fits by (auto simp: s1_def grow_def buf_len_def Let_def)
  have same: "sc_src s1 = sc_src s" "sc_err s1 = None"
    using live by (auto simp: s1_def grow_def Let_def)
  have "2 * length (sc_src (Read rd s1)) + (if sc_err (Read rd s1) = None then 1 else 0)
        < 2 * length (sc_src s) + (if sc_err s = None then 1 else 0)"
    using room same live by (cases "sc_src s") (auto simp: Read_def Let_def)
  then show "((rd, Read rd (if sc_room s = 0 then grow s else s)), (rd, s))
        \<in> measure (\<lambda>(rd, s). 2 * length (sc_src s) + (if sc_err s = None then 1 else 0))"
    by (simp add: s1_def)
qed

declare Scan.simps [simp del]

text \<open>\<open>Scanner.Err\<close>: the first error that is not \<open>io.EOF\<close>.\<close>

definition Scanner_Err :: "Scanner \<Rightarrow> go_error option" where
  "Scanner_Err s = (if sc_err s = Some EOF then None else sc_err s)"

subsection \<open>JSONLineReader\<close>

definition DefaultMaxBufferSize :: nat where
  "DefaultMaxBufferSize = 1024 * 1024"

record JSONLineReader =
  scanner :: Scanner
  maxSize :: nat

text \<open>
  \<open>bufio.NewScanner(r)\<close> followed by \<open>scanner.Buffer(buf, maxSize)\<close> with a buffer
  of capacity 64 KiB: the scanner's buffer is all of that capacity. \<open>r\<close> is what the
  reader will deliver.
\<close>

definition NewJSONLineReaderWithSize :: "string \<Rightarrow> nat \<Rightarrow> JSONLineReader" where
  "NewJSONLineReaderWithSize r maxSize' =
     \<lparr>scanner = \<lparr>sc_src = r, sc_buf = [], sc_room = 64 * 1024, maxTokenSize = maxSize',
                  sc_err = None\<rparr>,
      maxSize = maxSize'\<rparr>"

definition NewJSONLineReader :: "string \<Rightarrow> JSONLineReader" where
  "NewJSONLineReader r = NewJSONLineReaderWithSize r DefaultMaxBufferSize"

definition ReadLine :: "(nat \<Rightarrow> nat) \<Rightarrow> JSONLineReader \<Rightarrow> (go_error + string) \<times> JSONLineReader" where
  "ReadLine rd r =
     (case Scan rd (scanner r) of
        (None, s') \<Rightarrow>
          (case Scanner_Err s' of
             Some err \<Rightarrow>
               if err = ErrTooLong
               then (Inl (JSONDecodeError ''JSON line exceeded maximum buffer size'' Empty None),
                     r\<lparr>scanner := s'\<rparr>)
               else (Inl err, r\<lparr>scanner := s'\<rparr>)
           | None \<Rightarrow> (Inl EOF, r\<lparr>scanner := s'\<rparr>))
      | (Some token, s') \<Rightarrow> (Inr token, r\<lparr>scanner := s'\<rparr>))"

text \<open>The results of \<open>n\<close> calls of \<open>ReadLine\<close>, one after the other.\<close>

fun ReadLines :: "(nat \<Rightarrow> nat) \<Rightarrow> nat \<Rightarrow> JSONLineReader \<Rightarrow> (go_error + string) list" where
  "ReadLines rd 0 r = []"
| "ReadLines rd (Suc n) r = (case ReadLine rd r of (res, r') \<Rightarrow> res # ReadLines rd n r')"

subsection \<open>JSONLineWriter\<close>

text \<open>
  The writer underneath (the write end of a pipe, a byte buffer): the bytes it has
  taken, and whether it is closed; a closed writer takes nothing.
\<close>

record Sink =
  written :: string
  closed :: bool

text \<open>
  \<open>bufio.Writer\<close>: the bytes buffered, the error it keeps once a write has failed,
  and the writer underneath. The bytes reach that writer with \<open>Flush\<close> (a buffer that
  fills up flushes itself earlier; the bytes taken in the end are the same).
\<close>

record Writer =
  w_buf :: string
  w_err :: "go_error option"
  w_wr :: Sink

definition WriteString :: "Writer \<Rightarrow> string \<Rightarrow> go_error option \<times> Writer" where
  "WriteString w s =
     (case w_err w of Some err \<Rightarrow> (Some err, w) | None \<Rightarrow> (None, w\<lparr>w_buf := w_buf w @ s\<rparr>))"

definition Flush :: "Writer \<Rightarrow> go_error option \<times> Writer" where
  "Flush w =
     (case w_err w of
        Some err \<Rightarrow> (Some err, w)
      | None \<Rightarrow>
          if w_buf w = [] then (None, w)
          else if closed (w_wr w) then (Some ErrClosedPipe, w\<lparr>w_err := Some ErrClosedPipe\<rparr>)
          else (None, w\<lparr>w_wr := (w_wr w)\<lparr>written := written (w_wr w) @ w_buf w\<rparr>, w_buf := []\<rparr>))"

definition NewJSONLineWriter :: "Sink \<Rightarrow> Writer" where
  "NewJSONLineWriter w = \<lparr>w_buf = [], w_err = None, w_wr = w\<rparr>"

definition WriteLine :: "Writer \<Rightarrow> string \<Rightarrow> go_error option \<times> Writer" where
  "WriteLine w data =
     (case WriteString w data of
        (Some err, w1) \<Rightarrow> (Some err, w1)
      | (None, w1) \<Rightarrow>
          (case WriteString w1 [newline] of
             (Some err, w2) \<Rightarrow> (Some err, w2)
           | (None, w2) \<Rightarrow> Flush w2))"

text \<open>The records written in order, stopping at the first error.\<close>

fun WriteLines :: "Writer \<Rightarrow> string list \<Rightarrow> go_error option \<times> Writer" where
  "WriteLines w [] = (None, w)"
| "WriteLines w (data # rest) =
     (case WriteLine w data of
        (Some err, w') \<Rightarrow> (Some err, w')
      | (None, w') \<Rightarrow> WriteLines w' rest)"

section \<open>The subprocess transport (package transport)\<close>

definition SDKVersion :: string where
  "SDKVersion = ''0.1.0''"

text \<open>\<open>exec.Cmd\<close>, as far as \<open>Connect\<close> fills it in.\<close>

record Cmd =
  Path :: string
  Args :: "string list"
  Dir :: string
  Env :: "string list"

text \<open>
  A channel of messages: what has been sent and not yet received, and whether it is
  closed. The receiver is taken to keep up, so a send never waits for room.
\<close>

record chan =
  queue :: "Message list"
  chan_closed :: bool

text \<open>\<open>sync.Mutex\<close>: free, or held by a call.\<close>

datatype Mutex = Unlocked | Locked

text \<open>
  The transport. \<open>stdin\<close> says whether the field holds the pipe; the pipe itself is
  kept with the writer, which writes to the same pipe. \<open>stdout\<close> and \<open>stderr\<close>
  are the bytes the child writes before it closes the stream. \<open>ctx_cancelled\<close> and
  \<open>cancel\<close> are the context made by \<open>Connect\<close> and whether its cancel function is
  still held.
\<close>

record SubprocessCLITransport =
  cliPath :: string
  cwd :: string
  env :: "(string \<times> string) list"
  cmd :: "Cmd option"
  stdin :: bool
  stdout :: "string option"
  stderr :: "string option"
  ctx_cancelled :: bool
  cancel :: bool
  messages :: chan
  writer :: "Writer option"
  mu :: Mutex
  err :: "go_error option"
  ready :: bool

definition NewSubprocessCLITransport ::
  "string \<Rightarrow> string \<Rightarrow> (string \<times> string) list \<Rightarrow> SubprocessCLITransport"
where
  "NewSubprocessCLITransport cliPath' cwd' env' =
     \<lparr>cliPath = cliPath', cwd = cwd', env = env', cmd = None, stdin = False, stdout = None,
      stderr = None, ctx_cancelled = False, cancel = False,
      messages = \<lparr>queue = [], chan_closed = False\<rparr>, writer = None, mu = Unlocked,
      err = None, ready = False\<rparr>"

text \<open>
  What the operating system answers to \<open>Connect\<close>: one of the three pipes or the
  start of the process fails, or the child runs, with the bytes it will write to its
  standard output and to its standard error.
\<close>

datatype spawn =
    StdinPipeFails go_error
  | StdoutPipeFails go_error
  | StderrPipeFails go_error
  | StartFails go_error
  | Started string string

text \<open>
  \<open>Connect\<close>. \<open>environ\<close> is \<open>os.Environ()\<close>; the entries of \<open>t.env\<close> are
  appended in the order of the list. The context of the call is taken to be live, so
  the context derived from it starts uncancelled. The reader loop it launches runs as a
  step of its own (\<open>messageReaderLoop\<close> below).
\<close>

definition Connect ::
  "string list \<Rightarrow> spawn \<Rightarrow> SubprocessCLITransport \<Rightarrow> go_error option \<times> SubprocessCLITransport"
where
  "Connect environ os t =
     (if cmd t \<noteq> None then (None, t)
      else
        let t1 = t\<lparr>ctx_cancelled := False, cancel := True,
                   cmd := Some \<lparr>Path = cliPath t, Args = [''agent'', ''--stdio''],
                     Dir = (if cwd t \<noteq> [] then cwd t else []),
                     Env = environ @ [''CLAUDE_CODE_ENTRYPOINT=agent'',
                                      ''CLAUDE_AGENT_SDK_VERSION='' @ SDKVersion]
                           @ map (\<lambda>(key, value). key @ ''='' @ value) (env t)\<rparr>\<rparr>
        in case os of
             StdinPipeFails e \<Rightarrow>
               (Some (CLIConnectionError ''failed to create stdin pipe'' (Some e)), t1)
           | StdoutPipeFails e \<Rightarrow>
               (Some (CLIConnectionError ''failed to create stdout pipe'' (Some e)),
                t1\<lparr>stdin := True\<rparr>)
           | StderrPipeFails e \<Rightarrow>
               (Some (CLIConnectionError ''failed to create stderr pipe'' (Some e)),
                t1\<lparr>stdin := True, stdout := Some []\<rparr>)
           | StartFails e \<Rightarrow>
               (Some (CLIConnectionError ''failed to start subprocess'' (Some e)),
                t1\<lparr>stdin := True, stdout := Some [], stderr := Some []\<rparr>)
           | Started out errout \<Rightarrow>
               (None,
                t1\<lparr>stdin := True, stdout := Some out, stderr := Some errout,
                   writer := Some (NewJSONLineWriter \<lparr>written = [], closed = False\<rparr>),
                   ready := True\<rparr>))"

definition OnError :: "SubprocessCLITransport \<Rightarrow> go_error \<Rightarrow> SubprocessCLITransport" where
  "OnError t e = (if err t = None then t\<lparr>err := Some e\<rparr> else t)"

definition IsReady :: "SubprocessCLITransport \<Rightarrow> bool" where
  "IsReady t = ready t"


definition ReadMessages :: "SubprocessCLITransport \<Rightarrow> chan" where
  "ReadMessages t = messages t"

text \<open>
  The \<open>for\<close> loop of \<open>messageReaderLoop\<close>. \<open>parse\<close> is what encoding/json makes
  of the bytes of a line (\<open>Malformed\<close>, or the document they spell). \<open>ctx k\<close> says
  whether the loop, looking at the context for the \<open>k\<close>-th time, finds it cancelled:
  once at the head of every round and once where it sends. The result is the transport
  when the loop returns.
\<close>

function messageReaderLoop_for ::
  "(nat \<Rightarrow> nat) \<Rightarrow> (string \<Rightarrow> input) \<Rightarrow> (nat \<Rightarrow> bool) \<Rightarrow> nat \<Rightarrow> JSONLineReader \<Rightarrow>
     SubprocessCLITransport \<Rightarrow> SubprocessCLITransport"
where
  "messageReaderLoop_for rd parse ctx k reader t =
     (if ctx k then t
      else case ReadLine rd reader of
        (Inl e, reader') \<Rightarrow>
          if e = EOF then t
          else OnError t (JSONDecodeError ''failed to read JSON line from subprocess'' Empty (Some e))
      | (Inr line, reader') \<Rightarrow>
          if length line = 0 then messageReaderLoop_for rd parse ctx (Suc k) reader' t
          else case UnmarshalMessage (parse line) of
            Inl e \<Rightarrow> messageReaderLoop_for rd parse ctx (Suc k) reader' (OnError t e)
          | Inr msg \<Rightarrow>
              if ctx (Suc k) then t
              else messageReaderLoop_for rd parse ctx (Suc (Suc k)) reader'
                     (t\<lparr>messages := (messages t)\<lparr>queue := queue (messages t) @ [msg]\<rparr>\<rparr>))"
  by pat_completeness auto
termination
proof -
  have consume: "Scan rd s = (res, s') \<Longrightarrow>
      length (sc_buf s') + length (sc_src s') \<le> length (sc_buf s) + length (sc_src s) \<and>
      (res \<noteq> None \<longrightarrow> length (sc_buf s') + length (sc_src s') < length (sc_buf s) + length (sc_src s))"
    for rd s res s'
  proof (induction rd s arbitrary: res s' rule: Scan.induct)
    case (1 rd s)
    obtain advance tok where t: "(if sc_buf s \<noteq> [] \<or> sc_err s \<noteq> None
            then ScanLines (sc_buf s) (sc_err s \<noteq> None) else (0, None)) = (advance, tok)"
      by (cases "(if sc_buf s \<noteq> [] \<or> sc_err s \<noteq> None
            then ScanLines (sc_buf s) (sc_err s \<noteq> None) else (0::nat, None::string option))") auto
    show ?case
    proof (cases tok)
      case (Some token)
      with t have sl: "ScanLines (sc_buf s) (sc_err s \<noteq> None) = (advance, Some token)"
        by (auto split: if_splits)
      then have adv: "0 < advance" "sc_buf s \<noteq> []"
        by (auto simp: ScanLines_def IndexByte_def split: if_splits)
      from t Some "1.prems" have "res = Some token"
        "s' = s\<lparr>sc_buf := drop advance (sc_buf s), sc_room := sc_room s + advance\<rparr>"
        by (subst (asm) Scan.simps, simp)+
      with adv show ?thesis by (cases "sc_buf s") auto
    next
      case None
      show ?thesis
      proof (cases "sc_err s \<noteq> None")
        case True
        with t None "1.prems" have "res = None" "s' = s\<lparr>sc_room := buf_len s, sc_buf := []\<rparr>"
          by (subst (asm) Scan.simps, simp)+
        then show ?thesis by simp
      next
        case live: False
        show ?thesis
        proof (cases "sc_room s = 0 \<and> maxTokenSize s \<le> buf_len s")
          case True
          with t None live "1.prems" have "res = None" "s' = s\<lparr>sc_err := Some ErrTooLong\<rparr>"
            by (subst (asm) Scan.simps, simp)+
          then show ?thesis by simp
        next
          case nofull: False
          define s2 where "s2 = Read rd (if sc_room s = 0 then grow s else s)"
          have "Scan rd s = Scan rd s2"
            using t None live nofull by (subst Scan.simps) (auto simp: s2_def)
          with "1.prems" have step: "Scan rd s2 = (res, s')" by simp
          have same: "length (sc_buf s2) + length (sc_src s2) = length (sc_buf s) + length (sc_src s)"
            by (simp add: s2_def Read_def grow_def Let_def)
          from t None have t': "(advance, None) = (if sc_buf s \<noteq> [] \<or> sc_err s \<noteq> None
              then ScanLines (sc_buf s) (sc_err s \<noteq> None) else (0, None))" by simp
          from "1.IH" [OF t' refl live nofull step [unfolded s2_def]] same
          show ?thesis unfolding s2_def by simp
        qed
      qed
    qed
  qed
  have line: "ReadLine rd reader = (Inr line, reader') \<Longrightarrow>
      length (sc_buf (scanner reader')) + length (sc_src (scanner reader'))
        < length (sc_buf (scanner reader)) + length (sc_src (scanner reader))"
    for rd reader line reader'
  proof -
    assume a: "ReadLine rd reader = (Inr line, reader')"
    obtain res s' where sc: "Scan rd (scanner reader) = (res, s')"
      by (cases "Scan rd (scanner reader)")
    with a have "res \<noteq> None" "scanner reader' = s'"
      by (auto simp: ReadLine_def split: option.splits if_splits)
    with consume [OF sc] show ?thesis by simp
  qed
  show ?thesis
    by (relation "measure (\<lambda>(rd, parse, ctx, k, reader, t).
          length (sc_buf (scanner reader)) + length (sc_src (scanner reader)))")
       (auto dest: line [OF sym])
qed

declare messageReaderLoop_for.simps [simp del]

text \<open>
  \<open>messageReaderLoop\<close>: a reader with the default maximum over the child's standard
  output \<open>out\<close>, the loop, and the deferred \<open>close(t.messages)\<close>.
\<close>

definition messageReaderLoop ::
  "(nat \<Rightarrow> nat) \<Rightarrow> (string \<Rightarrow> input) \<Rightarrow> (nat \<Rightarrow> bool) \<Rightarrow> string \<Rightarrow>
     SubprocessCLITransport \<Rightarrow> SubprocessCLITransport"
where
  "messageReaderLoop rd parse ctx out t =
     (let t' = messageReaderLoop_for rd parse ctx 0 (NewJSONLineReader out) t
      in t'\<lparr>messages := (messages t')\<lparr>chan_closed := True\<rparr>\<rparr>)"

definition Write ::
  "SubprocessCLITransport \<Rightarrow> string \<Rightarrow> go_error option \<times> SubprocessCLITransport"
where
  "Write t data =
     (if \<not> ready t then (Some (CLIConnectionError ''transport is not ready for writing'' None), t)
      else case writer t of
        None \<Rightarrow> (Some (CLIConnectionError ''stdin writer not initialized'' None), t)
      | Some w \<Rightarrow>
          (case WriteLine w data of
             (Some e, w') \<Rightarrow>
               (Some (CLIConnectionError ''failed to write to subprocess stdin'' (Some e)),
                t\<lparr>writer := Some w', ready := False,
                  err := Some (CLIConnectionError ''failed to write to subprocess stdin'' (Some e))\<rparr>)
           | (None, w') \<Rightarrow> (None, t\<lparr>writer := Some w'\<rparr>)))"

text \<open>
  What \<open>Close\<close> sees when it waits: the context of the call ends first and the process
  is killed, or \<open>cmd.Wait\<close> returns (nil, an exit error with its code, another error).
\<close>

datatype wait = TimesOut | Exits "go_error option"

definition close_pipe :: "Writer \<Rightarrow> Writer" where
  "close_pipe w = w\<lparr>w_wr := (w_wr w)\<lparr>closed := True\<rparr>\<rparr>"

definition Close ::
  "wait \<Rightarrow> SubprocessCLITransport \<Rightarrow> go_error option \<times> SubprocessCLITransport"
where
  "Close outcome t =
     (if cmd t = None then (None, t)
      else
        let t1 = t\<lparr>ready := False\<rparr>;
            t2 = (if cancel t1 then t1\<lparr>ctx_cancelled := True, cancel := False\<rparr> else t1);
            t3 = (if stdin t2 then t2\<lparr>writer := map_option close_pipe (writer t2), stdin := False\<rparr>
                  else t2)
        in (case outcome of
              TimesOut \<Rightarrow>
                Some (ProcessError ''subprocess did not exit gracefully, killed'' None None)
            | Exits None \<Rightarrow> None
            | Exits (Some (ExitError code)) \<Rightarrow>
                Some (ProcessError ''subprocess exited with error'' (Some code) None)
            | Exits (Some e) \<Rightarrow>
                Some (ProcessError ''subprocess exited with error'' None (Some e)),
            t3))"

text \<open>
  The bytes the child's standard input has been handed, and the calls on a transport
  with what the world contributes to each: the answer of the operating system to
  \<open>Connect\<close>, how the wait of \<open>Close\<close> ends, a run of the reader loop, and the child
  going away (its end of the pipe closes, so later writes fail). \<open>run\<close> performs a
  list of calls and collects the errors returned.
\<close>

definition stdin_bytes :: "SubprocessCLITransport \<Rightarrow> string" where
  "stdin_bytes t = (case writer t of Some w \<Rightarrow> written (w_wr w) | None \<Rightarrow> [])"

datatype op =
    OpConnect "string list" spawn
  | OpWrite string
  | OpClose wait
  | OpOnError go_error
  | OpReaderLoop "nat \<Rightarrow> nat" "string \<Rightarrow> input" "nat \<Rightarrow> bool"
  | OpChildGone

definition step :: "op \<Rightarrow> SubprocessCLITransport \<Rightarrow> go_error option \<times> SubprocessCLITransport" where
  "step a t = (case a of
       OpConnect environ os \<Rightarrow> Connect environ os t
     | OpWrite data \<Rightarrow> Write t data
     | OpClose outcome \<Rightarrow> Close outcome t
     | OpOnError e \<Rightarrow> (None, OnError t e)
     | OpReaderLoop rd parse ctx \<Rightarrow>
         (None, case stdout t of Some out \<Rightarrow> messageReaderLoop rd parse ctx out t | None \<Rightarrow> t)
     | OpChildGone \<Rightarrow> (None, t\<lparr>writer := map_option close_pipe (writer t)\<rparr>))"

fun run :: "op list \<Rightarrow> SubprocessCLITransport \<Rightarrow> go_error option list \<times> SubprocessCLITransport" where
  "run [] t = ([], t)"
| "run (a # ops) t =
     (case step a t of (e, t') \<Rightarrow> (case run ops t' of (es, t'') \<Rightarrow> (e # es, t'')))"

section \<open>The client (client.go)\<close>

text \<open>
  Modelled from the spec: \<open>internal.Query\<close> is not among the sources. Of it
  \<open>ReceiveResponse\<close> uses \<open>GetMessages\<close> alone, which hands out the queue of content
  messages of the session.
\<close>

record Query =
  q_messages :: chan

definition GetMessages :: "Query \<Rightarrow> chan" where
  "GetMessages q = q_messages q"

text \<open>Of the client, the fields \<open>ReceiveResponse\<close> reads.\<close>

record Client =
  connected :: bool
  query :: "Query option"

definition isResult :: "Message \<Rightarrow> bool" where
  "isResult msg = (case msg of ResultMessageV r \<Rightarrow> True | _ \<Rightarrow> False)"

text \<open>
  The goroutine of \<open>ReceiveResponse\<close> over the messages the channel will deliver, in
  order, and whether the channel is closed after them. \<open>ctx k\<close> says whether the
  \<open>k\<close>-th \<open>select\<close> takes the branch of the cancelled context. The result: the
  messages sent to the output channel, whether that channel gets closed (it does not
  while the goroutine waits for a message that never comes), and the messages left in
  the session's channel.
\<close>

fun forward :: "(nat \<Rightarrow> bool) \<Rightarrow> nat \<Rightarrow> Message list \<Rightarrow> bool \<Rightarrow> Message list \<times> bool \<times> Message list" where
  "forward ctx k [] closed' = ([], ctx k \<or> closed', [])"
| "forward ctx k (msg # rest) closed' =
     (if ctx k then ([], True, msg # rest)
      else if ctx (Suc k) then ([], True, rest)
      else if isResult msg then ([msg], True, rest)
      else case forward ctx (Suc (Suc k)) rest closed' of
        (out, fin, left) \<Rightarrow> (msg # out, fin, left))"

definition ReceiveResponse :: "(nat \<Rightarrow> bool) \<Rightarrow> Client \<Rightarrow> Message list \<times> bool \<times> Client" where
  "ReceiveResponse ctx c =
     (if \<not> connected c then ([], True, c)
      else case query c of
        None \<Rightarrow> ([], True, c)
      | Some q \<Rightarrow>
          (case forward ctx 0 (queue (GetMessages q)) (chan_closed (GetMessages q)) of
             (out, fin, left) \<Rightarrow>
               (out, fin, c\<lparr>query := Some (q\<lparr>q_messages := (q_messages q)\<lparr>queue := left\<rparr>\<rparr>)\<rparr>)))"

section \<open>Sample records\<close>

definition block_valid :: input where
  "block_valid = Doc (JObject [(''type'', JString ''text''), (''text'', JString ''Valid'')])"

definition block_invalid :: input where
  "block_invalid = Doc (JObject [(''type'', JString ''invalid_type'')])"















definition user_content_null :: input where
  "user_content_null = Doc (JObject [(''type'', JString ''user''), (''content'', JNull)])"

definition user_content_absent :: input where
  "user_content_absent = Doc (JObject [(''type'', JString ''user'')])"

text \<open>A writer underneath that is open and has taken nothing; records for the framer.\<close>

definition stdout_Sink :: Sink where
  "stdout_Sink = \<lparr>written = [], closed = False\<rparr>"

definition sample_records :: "string list" where
  "sample_records = [''[1]'', [], ''{}'']"

definition cr_records :: "string list" where
  "cr_records = [[CHR ''a'', CHR 0x0D]]"

section \<open>Notions used in the properties of the transport\<close>




definition wired :: "SubprocessCLITransport \<Rightarrow> bool" where
  "wired t = (ready t \<longrightarrow> cmd t \<noteq> None \<and> writer t \<noteq> None)"

text \<open>Transports, errors, messages and lines for the instances below.\<close>

definition fresh_transport :: SubprocessCLITransport where
  "fresh_transport = NewSubprocessCLITransport ''claude'' [] []"



definition connected_transport :: SubprocessCLITransport where
  "connected_transport = snd (run [OpConnect [] (Started [] [])] fresh_transport)"

definition user_hi :: Message where
  "user_hi = UserMessageV \<lparr>um_Type = ''user'', um_Content = ContentString ''hi'', um_ParentToolUseID = None\<rparr>"

definition result_ok :: Message where
  "result_ok = ResultMessageV (ResultMessage_zero\<lparr>rm_Type := ''result''\<rparr>)"

definition session :: "Message list \<Rightarrow> Client" where
  "session msgs = \<lparr>connected = True,
     query = Some \<lparr>q_messages = \<lparr>queue = msgs, chan_closed = False\<rparr>\<rparr>\<rparr>"





section \<open>Properties of the message parser\<close>

lemmas decode_simps = UnmarshalMessage_def typeCheck_def Unmarshal_def struct_into_def
  find_field_def string_into_def upper_def json_kind_def UnmarshalContentBlock_def
  ParseContentBlock_def ParseMessage_def IsMessageParseError_def IsJSONDecodeError_def
  TextBlock_store_def

lemma ParseContentBlocks_loop_good:
  "\<forall>r\<in>set blocks. \<not> isl (ParseContentBlock r) \<Longrightarrow>
   ParseContentBlocks_loop i blocks acc = Inr (acc @ map (\<lambda>r. projr (ParseContentBlock r)) blocks)"
proof (induction blocks arbitrary: i acc)
  case Nil
  then show ?case by simp
next
  case (Cons r rs)
  then obtain b where b: "ParseContentBlock r = Inr b"
    by (cases "ParseContentBlock r") auto
  with Cons show ?case by simp
qed

lemma ParseContentBlocks_loop_bad:
  "\<forall>r\<in>set good. \<not> isl (ParseContentBlock r) \<Longrightarrow> ParseContentBlock bad = Inl e \<Longrightarrow>
   ParseContentBlocks_loop i (good @ bad # rest) acc = Inl (IndexedError (i + length good) e)"
proof (induction good arbitrary: i acc)
  case Nil
  then show ?case by simp
next
  case (Cons r rs)
  then obtain b where b: "ParseContentBlock r = Inr b"
    by (cases "ParseContentBlock r") auto
  with Cons show ?case by simp
qed

text \<open>
  C9. When the first block that \<open>ParseContentBlock\<close> rejects stands at the zero-based
  index \<open>i\<close>, \<open>ParseContentBlocks\<close> returns that block's error wrapped with the
  index \<open>i\<close>, whatever follows it; when no block is rejected it returns the decoded
  blocks in order.
\<close>

theorem ParseContentBlocks_index:
  "(i < length blocks \<and> (\<forall>j<i. \<not> isl (ParseContentBlock (blocks ! j))) \<and>
      ParseContentBlock (blocks ! i) = Inl e
      \<longrightarrow> ParseContentBlocks blocks = Inl (IndexedError i e)) \<and>
   ((\<forall>j<length blocks. \<not> isl (ParseContentBlock (blocks ! j)))
      \<longrightarrow> ParseContentBlocks blocks = Inr (map (\<lambda>r. projr (ParseContentBlock r)) blocks))"
proof (intro conjI impI)
  assume a: "i < length blocks \<and> (\<forall>j<i. \<not> isl (ParseContentBlock (blocks ! j))) \<and>
      ParseContentBlock (blocks ! i) = Inl e"
  then have split: "blocks = take i blocks @ blocks ! i # drop (Suc i) blocks"
    by (simp add: id_take_nth_drop)
  have good: "\<forall>r\<in>set (take i blocks). \<not> isl (ParseContentBlock r)"
    using a by (auto simp: in_set_conv_nth)
  have "ParseContentBlocks_loop 0 (take i blocks @ blocks ! i # drop (Suc i) blocks) [] =
        Inl (IndexedError (0 + length (take i blocks)) e)"
    using good a by (intro ParseContentBlocks_loop_bad) auto
  with split a have "ParseContentBlocks_loop 0 blocks [] = Inl (IndexedError i e)"
    by simp
  moreover have "length blocks \<noteq> 0" using a by auto
  ultimately show "ParseContentBlocks blocks = Inl (IndexedError i e)"
    by (simp add: ParseContentBlocks_def)
next
  assume a: "\<forall>j<length blocks. \<not> isl (ParseContentBlock (blocks ! j))"
  then have "\<forall>r\<in>set blocks. \<not> isl (ParseContentBlock r)"
    by (auto simp: in_set_conv_nth)
  then have "ParseContentBlocks_loop 0 blocks [] = Inr ([] @ map (\<lambda>r. projr (ParseContentBlock r)) blocks)"
    by (rule ParseContentBlocks_loop_good)
  then show "ParseContentBlocks blocks = Inr (map (\<lambda>r. projr (ParseContentBlock r)) blocks)"
    by (simp add: ParseContentBlocks_def)
qed

lemma ParseContentBlock_block_valid: "ParseContentBlock block_valid = Inr (TextBlockV \<lparr>tb_Type = ''text'', tb_Text = ''Valid''\<rparr>)"
  by (simp add: block_valid_def decode_simps)

lemma ParseContentBlock_block_invalid: "ParseContentBlock block_invalid = Inl (MessageParseError ''unknown content block type'' (Some ''invalid_type'') None)"
  by (simp add: block_invalid_def decode_simps)

theorem ParseContentBlocks_index_witness:
  "ParseContentBlocks [block_valid, block_invalid, block_valid] =
     Inl (IndexedError 1 (MessageParseError ''unknown content block type'' (Some ''invalid_type'') None)) \<and>
   ParseContentBlocks [block_valid, block_valid] =
     Inr [TextBlockV \<lparr>tb_Type = ''text'', tb_Text = ''Valid''\<rparr>, TextBlockV \<lparr>tb_Type = ''text'', tb_Text = ''Valid''\<rparr>]"
  using
    ParseContentBlocks_index [of 1 "[block_valid, block_invalid, block_valid]"
      "MessageParseError ''unknown content block type'' (Some ''invalid_type'') None"]
    ParseContentBlocks_index [of 0 "[block_valid, block_valid]" EOF]
  by (simp add: ParseContentBlock_block_valid ParseContentBlock_block_invalid less_Suc_eq)

























lemmas user_simps = Unmarshal_with_def UserMessage_UnmarshalJSON_def UserAux_store_def
  Unmarshal_string_def Unmarshal_raw_list_def





















text \<open>
  What \<open>UserMessage.UnmarshalJSON\<close> does with the content it finds, once the members
  have been stored: a string is kept, an array is decoded block by block, every other
  value is rejected, except null, which the string probe accepts.
\<close>

lemma UserMessage_content_shapes:
  assumes "j \<noteq> JNull"
    and "struct_into [''content'', ''type'', ''parent_tool_use_id''] UserAux_store j
           \<lparr>ua_Content = Empty, ua_Type = [], ua_ParentToolUseID = None\<rparr> = Inr aux"
  shows "UserMessage_UnmarshalJSON j =
     (case ua_Content aux of
        Doc (JString s) \<Rightarrow>
          Inr \<lparr>um_Type = ua_Type aux, um_Content = ContentString s,
               um_ParentToolUseID = ua_ParentToolUseID aux\<rparr>
      | Doc JNull \<Rightarrow>
          Inr \<lparr>um_Type = ua_Type aux, um_Content = ContentString [],
               um_ParentToolUseID = ua_ParentToolUseID aux\<rparr>
      | Doc (JArray xs) \<Rightarrow>
          (case unmarshal_blocks xs of
             Inl e \<Rightarrow> Inl e
           | Inr blocks \<Rightarrow>
               Inr \<lparr>um_Type = ua_Type aux, um_Content = ContentBlocks blocks,
                    um_ParentToolUseID = ua_ParentToolUseID aux\<rparr>)
      | _ \<Rightarrow> Inl (Errorf ''content must be string or array of content blocks''))"
  using assms
  by (simp add: UserMessage_UnmarshalJSON_def Unmarshal_string_def Unmarshal_raw_list_def
      string_into_def json_kind_def split: input.splits json.splits sum.splits)

text \<open>
  C5 at the record \<open>{"type":"user","content":null}\<close>: the string probe accepts
  null, so the record decodes to a user message whose content is the empty string, where
  a record without any content member is rejected.
\<close>

theorem user_content_null_accepted:
  "UnmarshalMessage user_content_null =
     Inr (UserMessageV \<lparr>um_Type = ''user'', um_Content = ContentString [], um_ParentToolUseID = None\<rparr>) \<and>
   ParseMessage user_content_null =
     Inr (UserMessageV \<lparr>um_Type = ''user'', um_Content = ContentString [], um_ParentToolUseID = None\<rparr>) \<and>
   UnmarshalMessage user_content_absent =
     Inl (JSONDecodeError ''failed to unmarshal user message'' user_content_absent
            (Some (Errorf ''content must be string or array of content blocks'')))"
  by (simp add: user_content_null_def user_content_absent_def decode_simps user_simps)

section \<open>Properties of the line framer\<close>

lemma takeWhile_line:
  "c \<notin> set line \<Longrightarrow> takeWhile (\<lambda>x. x \<noteq> c) (line @ c # rest) = line"
  by (induction line) auto

lemma ScanLines_found:
  assumes "newline \<notin> set line"
  shows "ScanLines (line @ newline # extra) atEOF = (Suc (length line), Some (dropCR line))"
  using assms by (simp add: ScanLines_def IndexByte_def takeWhile_line)

lemma ScanLines_partial:
  assumes "newline \<notin> set data"
  shows "ScanLines data False = (0, None)"
  using assms by (simp add: ScanLines_def IndexByte_def)

lemma prefix_split:
  assumes "b @ src = line @ c # rest" and "c \<notin> set line" and "c \<in> set b"
  shows "\<exists>extra. b = line @ c # extra \<and> extra @ src = rest"
proof -
  from assms(3) obtain b1 b2 where b: "b = b1 @ c # b2" and nb1: "c \<notin> set b1"
    by (meson split_list_first)
  with assms(1) have "b1 @ c # (b2 @ src) = line @ c # rest" by simp
  moreover from nb1 have "takeWhile (\<lambda>x. x \<noteq> c) (b1 @ c # (b2 @ src)) = b1"
    by (rule takeWhile_line)
  moreover from assms(2) have "takeWhile (\<lambda>x. x \<noteq> c) (line @ c # rest) = line"
    by (rule takeWhile_line)
  ultimately have "b1 = line" by simp
  with \<open>b1 @ c # (b2 @ src) = line @ c # rest\<close> have "b1 = line \<and> b2 @ src = rest"
    by simp
  with b show ?thesis by auto
qed

lemma prefix_of_line:
  assumes "b @ src = line @ c # rest" and "c \<notin> set b"
  shows "length b \<le> length line \<and> src \<noteq> []"
proof -
  have "length b \<le> length line"
  proof (rule ccontr)
    assume "\<not> length b \<le> length line"
    then have "length line < length b" by simp
    then have "b ! length line = (b @ src) ! length line" by (simp add: nth_append)
    also have "\<dots> = c" using assms(1) by (simp add: nth_append)
    finally have "c \<in> set b" using \<open>length line < length b\<close> by (metis nth_mem)
    with assms(2) show False by simp
  qed
  moreover have "src \<noteq> []"
  proof
    assume "src = []"
    with assms(1) have "c \<in> set b" by simp
    with assms(2) show False by simp
  qed
  ultimately show ?thesis by simp
qed

lemma Scan_line:
  assumes "sc_err s = None"
    and "sc_buf s @ sc_src s = line @ newline # rest"
    and "newline \<notin> set line"
    and "length line < max (buf_len s) (maxTokenSize s)"
  shows "\<exists>s'. Scan rd s = (Some (dropCR line), s') \<and> sc_err s' = None \<and>
           sc_buf s' @ sc_src s' = rest \<and> maxTokenSize s' = maxTokenSize s \<and>
           buf_len s \<le> buf_len s' \<and> buf_len s' \<le> max (buf_len s) (maxTokenSize s)"
  using assms
proof (induction rd s rule: Scan.induct)
  case (1 rd s)
  show ?case
  proof (cases "newline \<in> set (sc_buf s)")
    case True
    from prefix_split [OF "1.prems"(2,3) True] obtain extra
      where b: "sc_buf s = line @ newline # extra" and r: "extra @ sc_src s = rest" by auto
    have "ScanLines (sc_buf s) (sc_err s \<noteq> None) = (Suc (length line), Some (dropCR line))"
      using b "1.prems"(3) by (simp add: ScanLines_found)
    with b r "1.prems"(1) show ?thesis
      by (subst Scan.simps) (simp add: buf_len_def)
  next
    case False
    from prefix_of_line [OF "1.prems"(2) False]
    have len: "length (sc_buf s) \<le> length line" and src: "sc_src s \<noteq> []" by auto
    have nofull: "\<not> (sc_room s = 0 \<and> maxTokenSize s \<le> buf_len s)"
      using len "1.prems"(4) by (auto simp: buf_len_def)
    define s1 where "s1 = (if sc_room s = 0 then grow s else s)"
    define s2 where "s2 = Read rd s1"
    have s1: "sc_err s1 = None" "sc_buf s1 = sc_buf s" "sc_src s1 = sc_src s"
      "maxTokenSize s1 = maxTokenSize s" "buf_len s \<le> buf_len s1"
      "buf_len s1 \<le> max (buf_len s) (maxTokenSize s)" "0 < sc_room s1"
      "max (buf_len s1) (maxTokenSize s1) = max (buf_len s) (maxTokenSize s)"
      using "1.prems"(1) nofull by (auto simp: s1_def grow_def buf_len_def Let_def)
    have s2: "sc_err s2 = None" "sc_buf s2 @ sc_src s2 = sc_buf s @ sc_src s"
      "maxTokenSize s2 = maxTokenSize s" "buf_len s2 = buf_len s1"
      using s1 src by (auto simp: s2_def Read_def Let_def buf_len_def)
    have tok: "(if sc_buf s \<noteq> [] \<or> sc_err s \<noteq> None
            then ScanLines (sc_buf s) (sc_err s \<noteq> None) else (0, None)) = (0, None)"
      using False "1.prems"(1) by (simp add: ScanLines_partial)
    have step: "Scan rd s = Scan rd s2"
      using tok "1.prems"(1) nofull by (subst Scan.simps) (auto simp add: s2_def s1_def)
    have "\<exists>s'. Scan rd s2 = (Some (dropCR line), s') \<and> sc_err s' = None \<and>
           sc_buf s' @ sc_src s' = rest \<and> maxTokenSize s' = maxTokenSize s2 \<and>
           buf_len s2 \<le> buf_len s' \<and> buf_len s' \<le> max (buf_len s2) (maxTokenSize s2)"
      unfolding s2_def s1_def
    proof (rule "1.IH" [OF tok [symmetric] refl _ nofull])
      show "\<not> sc_err s \<noteq> None" using "1.prems"(1) by simp
      show "sc_err (Read rd (if sc_room s = 0 then grow s else s)) = None"
        using s2(1) by (simp add: s2_def s1_def)
      show "sc_buf (Read rd (if sc_room s = 0 then grow s else s)) @
            sc_src (Read rd (if sc_room s = 0 then grow s else s)) = line @ newline # rest"
        using s2(2) "1.prems"(2) by (simp add: s2_def s1_def)
      show "newline \<notin> set line" by fact
      show "length line < max (buf_len (Read rd (if sc_room s = 0 then grow s else s)))
             (maxTokenSize (Read rd (if sc_room s = 0 then grow s else s)))"
        using s2(3,4) s1(8) s1(4) "1.prems"(4) by (simp add: s2_def s1_def)
    qed
    with step s2 s1 show ?thesis by auto
  qed
qed

lemma Scan_too_long:
  assumes "sc_err s = None"
    and "newline \<notin> set (take (max (buf_len s) (maxTokenSize s)) (sc_buf s @ sc_src s))"
    and "max (buf_len s) (maxTokenSize s) \<le> length (sc_buf s @ sc_src s)"
  shows "\<exists>s'. Scan rd s = (None, s') \<and> sc_err s' = Some ErrTooLong"
  using assms
proof (induction rd s rule: Scan.induct)
  case (1 rd s)
  define C where "C = max (buf_len s) (maxTokenSize s)"
  have "set (sc_buf s) \<subseteq> set (take C (sc_buf s @ sc_src s))"
    by (auto simp: C_def buf_len_def)
  with "1.prems"(2) have nonl: "newline \<notin> set (sc_buf s)" by (auto simp: C_def)
  have tok: "(if sc_buf s \<noteq> [] \<or> sc_err s \<noteq> None
            then ScanLines (sc_buf s) (sc_err s \<noteq> None) else (0, None)) = (0, None)"
    using nonl "1.prems"(1) by (simp add: ScanLines_partial)
  show ?case
  proof (cases "sc_room s = 0 \<and> maxTokenSize s \<le> buf_len s")
    case True
    with tok "1.prems"(1) show ?thesis by (subst Scan.simps) simp
  next
    case nofull: False
    define s1 where "s1 = (if sc_room s = 0 then grow s else s)"
    define s2 where "s2 = Read rd s1"
    have s1: "sc_err s1 = None" "sc_buf s1 = sc_buf s" "sc_src s1 = sc_src s"
      "maxTokenSize s1 = maxTokenSize s" "0 < sc_room s1"
      "max (buf_len s1) (maxTokenSize s1) = C"
      using "1.prems"(1) nofull by (auto simp: s1_def grow_def buf_len_def Let_def C_def)
    have "length (sc_buf s1) < C" using s1(5,6) by (auto simp: buf_len_def)
    with "1.prems"(3) s1 have src: "sc_src s \<noteq> []" by (auto simp: C_def)
    have s2: "sc_err s2 = None" "sc_buf s2 @ sc_src s2 = sc_buf s @ sc_src s"
      "maxTokenSize s2 = maxTokenSize s" "buf_len s2 = buf_len s1"
      using s1 src by (auto simp: s2_def Read_def Let_def buf_len_def)
    have step: "Scan rd s = Scan rd s2"
      using tok "1.prems"(1) nofull by (subst Scan.simps) (auto simp add: s2_def s1_def)
    have "\<exists>s'. Scan rd s2 = (None, s') \<and> sc_err s' = Some ErrTooLong"
      unfolding s2_def s1_def
    proof (rule "1.IH" [OF tok [symmetric] refl _ nofull])
      show "\<not> sc_err s \<noteq> None" using "1.prems"(1) by simp
      show "sc_err (Read rd (if sc_room s = 0 then grow s else s)) = None"
        using s2(1) by (simp add: s2_def s1_def)
      have C2: "max (buf_len s2) (maxTokenSize s2) = C" using s2(3,4) s1(4,6) by simp
      show "newline \<notin> set (take (max (buf_len (Read rd (if sc_room s = 0 then grow s else s)))
               (maxTokenSize (Read rd (if sc_room s = 0 then grow s else s))))
             (sc_buf (Read rd (if sc_room s = 0 then grow s else s)) @
              sc_src (Read rd (if sc_room s = 0 then grow s else s))))"
        using C2 s2(2) "1.prems"(2) unfolding s2_def s1_def C_def by simp
      show "max (buf_len (Read rd (if sc_room s = 0 then grow s else s)))
              (maxTokenSize (Read rd (if sc_room s = 0 then grow s else s)))
            \<le> length (sc_buf (Read rd (if sc_room s = 0 then grow s else s)) @
                 sc_src (Read rd (if sc_room s = 0 then grow s else s)))"
        using C2 s2(2) "1.prems"(3) unfolding s2_def s1_def C_def by simp
    qed
    with step show ?thesis by simp
  qed
qed

lemma Scan_end:
  assumes "sc_err s = None" and "sc_buf s = []" and "sc_src s = []" and "0 < sc_room s"
  shows "\<exists>s'. Scan rd s = (None, s') \<and> sc_err s' = Some EOF"
proof -
  have "Scan rd s = Scan rd (s\<lparr>sc_err := Some EOF\<rparr>)"
    using assms by (subst Scan.simps) (simp add: Read_def)
  also have "\<dots> = (None, s\<lparr>sc_err := Some EOF, sc_room := buf_len (s\<lparr>sc_err := Some EOF\<rparr>), sc_buf := []\<rparr>)"
    using assms by (subst Scan.simps) (simp add: ScanLines_def)
  finally show ?thesis by simp
qed

lemma ScanLines_token:
  "ScanLines data e = (advance, Some token) \<Longrightarrow> advance \<le> length data \<and> length token \<le> length data"
proof -
  have tw: "newline \<in> set data \<Longrightarrow> length (takeWhile (\<lambda>x. x \<noteq> newline) data) < length data"
    by (induction data) auto
  assume "ScanLines data e = (advance, Some token)"
  then show ?thesis
    using tw by (auto simp: ScanLines_def IndexByte_def dropCR_def split: if_splits)
qed

lemma Scan_token:
  "(if sc_buf s \<noteq> [] \<or> sc_err s \<noteq> None
      then ScanLines (sc_buf s) (sc_err s \<noteq> None) else (0, None)) = (advance, Some token) \<Longrightarrow>
   Scan rd s = (Some token, s\<lparr>sc_buf := drop advance (sc_buf s), sc_room := sc_room s + advance\<rparr>)"
  by (subst Scan.simps) simp

lemma Scan_stop:
  "(if sc_buf s \<noteq> [] \<or> sc_err s \<noteq> None
      then ScanLines (sc_buf s) (sc_err s \<noteq> None) else (0, None)) = (advance, None) \<Longrightarrow>
   sc_err s \<noteq> None \<Longrightarrow>
   Scan rd s = (None, s\<lparr>sc_room := buf_len s, sc_buf := []\<rparr>)"
  by (subst Scan.simps) simp

lemma Scan_full:
  "(if sc_buf s \<noteq> [] \<or> sc_err s \<noteq> None
      then ScanLines (sc_buf s) (sc_err s \<noteq> None) else (0, None)) = (advance, None) \<Longrightarrow>
   sc_err s = None \<Longrightarrow> sc_room s = 0 \<and> maxTokenSize s \<le> buf_len s \<Longrightarrow>
   Scan rd s = (None, s\<lparr>sc_err := Some ErrTooLong\<rparr>)"
  by (subst Scan.simps) simp

lemma Scan_more:
  "(if sc_buf s \<noteq> [] \<or> sc_err s \<noteq> None
      then ScanLines (sc_buf s) (sc_err s \<noteq> None) else (0, None)) = (advance, None) \<Longrightarrow>
   sc_err s = None \<Longrightarrow> \<not> (sc_room s = 0 \<and> maxTokenSize s \<le> buf_len s) \<Longrightarrow>
   Scan rd s = Scan rd (Read rd (if sc_room s = 0 then grow s else s))"
  by (subst Scan.simps) auto

lemma Read_bound:
  "maxTokenSize (Read rd s) = maxTokenSize s \<and> buf_len (Read rd s) \<le> buf_len s"
  by (simp add: Read_def Let_def buf_len_def)

lemma grow_bound:
  "sc_room s = 0 \<Longrightarrow> \<not> maxTokenSize s \<le> buf_len s \<Longrightarrow>
   maxTokenSize (grow s) = maxTokenSize s \<and> buf_len (grow s) \<le> maxTokenSize s"
  by (simp add: grow_def Let_def buf_len_def)

lemma Scan_bound:
  "Scan rd s = (res, s') \<Longrightarrow>
     maxTokenSize s' = maxTokenSize s \<and>
     max (buf_len s') (maxTokenSize s') \<le> max (buf_len s) (maxTokenSize s) \<and>
     (\<forall>token. res = Some token \<longrightarrow> length token \<le> max (buf_len s) (maxTokenSize s))"
proof (induction rd s arbitrary: res s' rule: Scan.induct)
  case (1 rd s)
  obtain advance tok where t: "(if sc_buf s \<noteq> [] \<or> sc_err s \<noteq> None
            then ScanLines (sc_buf s) (sc_err s \<noteq> None) else (0, None)) = (advance, tok)"
    by (cases "(if sc_buf s \<noteq> [] \<or> sc_err s \<noteq> None
            then ScanLines (sc_buf s) (sc_err s \<noteq> None) else (0::nat, None::string option))") auto
  show ?case
  proof (cases tok)
    case (Some token)
    with t have sl: "ScanLines (sc_buf s) (sc_err s \<noteq> None) = (advance, Some token)"
      by (auto split: if_splits)
    from ScanLines_token [OF sl] have b: "advance \<le> length (sc_buf s)" "length token \<le> length (sc_buf s)"
      by auto
    from t Some have "Scan rd s = (Some token, s\<lparr>sc_buf := drop advance (sc_buf s), sc_room := sc_room s + advance\<rparr>)"
      by (simp add: Scan_token)
    with "1.prems" have "res = Some token"
      "s' = s\<lparr>sc_buf := drop advance (sc_buf s), sc_room := sc_room s + advance\<rparr>"
      by simp_all
    with b show ?thesis by (simp add: buf_len_def)
  next
    case None
    show ?thesis
    proof (cases "sc_err s \<noteq> None")
      case True
      from t None True have "Scan rd s = (None, s\<lparr>sc_room := buf_len s, sc_buf := []\<rparr>)"
        by (simp add: Scan_stop)
      with "1.prems" have "res = None" "s' = s\<lparr>sc_room := buf_len s, sc_buf := []\<rparr>"
        by simp_all
      then show ?thesis by (simp add: buf_len_def)
    next
      case False
      then have live: "sc_err s = None" by simp
      show ?thesis
      proof (cases "sc_room s = 0 \<and> maxTokenSize s \<le> buf_len s")
        case True
        from t None live True have "Scan rd s = (None, s\<lparr>sc_err := Some ErrTooLong\<rparr>)"
          by (simp add: Scan_full)
        with "1.prems" have "res = None" "s' = s\<lparr>sc_err := Some ErrTooLong\<rparr>"
          by simp_all
        then show ?thesis by (simp add: buf_len_def)
      next
        case nofull: False
        define s1 where "s1 = (if sc_room s = 0 then grow s else s)"
        define s2 where "s2 = Read rd s1"
        from t None live nofull have "Scan rd s = Scan rd s2"
          unfolding s2_def s1_def by (simp add: Scan_more)
        with "1.prems" have step: "Scan rd s2 = (res, s')" by simp
        have s1: "maxTokenSize s1 = maxTokenSize s \<and> buf_len s1 \<le> max (buf_len s) (maxTokenSize s)"
          using nofull grow_bound [of s] by (cases "sc_room s = 0") (auto simp: s1_def)
        have s2: "maxTokenSize s2 = maxTokenSize s"
          "buf_len s2 \<le> max (buf_len s) (maxTokenSize s)"
          using s1 Read_bound [of rd s1] by (auto simp: s2_def)
        from t None have t': "(advance, None) = (if sc_buf s \<noteq> [] \<or> sc_err s \<noteq> None
            then ScanLines (sc_buf s) (sc_err s \<noteq> None) else (0, None))" by simp
        from "1.IH" [OF t' refl False nofull step [unfolded s2_def s1_def]]
        have ih: "maxTokenSize s' = maxTokenSize s2"
          "max (buf_len s') (maxTokenSize s') \<le> max (buf_len s2) (maxTokenSize s2)"
          "\<forall>token. res = Some token \<longrightarrow> length token \<le> max (buf_len s2) (maxTokenSize s2)"
          unfolding s2_def s1_def by auto
        from ih s2 show ?thesis by auto
      qed
    qed
  qed
qed

lemma ReadLine_line:
  assumes "sc_err (scanner r) = None"
    and "sc_buf (scanner r) @ sc_src (scanner r) = line @ newline # rest"
    and "newline \<notin> set line"
    and "length line < max (buf_len (scanner r)) (maxTokenSize (scanner r))"
  shows "\<exists>r'. ReadLine rd r = (Inr (dropCR line), r') \<and> sc_err (scanner r') = None \<and>
           sc_buf (scanner r') @ sc_src (scanner r') = rest \<and>
           maxTokenSize (scanner r') = maxTokenSize (scanner r) \<and>
           buf_len (scanner r) \<le> buf_len (scanner r') \<and>
           buf_len (scanner r') \<le> max (buf_len (scanner r)) (maxTokenSize (scanner r))"
proof -
  from Scan_line [OF assms, of rd] obtain s' where
    s': "Scan rd (scanner r) = (Some (dropCR line), s')" "sc_err s' = None"
    "sc_buf s' @ sc_src s' = rest" "maxTokenSize s' = maxTokenSize (scanner r)"
    "buf_len (scanner r) \<le> buf_len s'"
    "buf_len s' \<le> max (buf_len (scanner r)) (maxTokenSize (scanner r))"
    by blast
  then have "ReadLine rd r = (Inr (dropCR line), r\<lparr>scanner := s'\<rparr>)"
    by (simp add: ReadLine_def)
  with s' show ?thesis by simp
qed

lemma ReadLine_too_long:
  assumes "sc_err (scanner r) = None"
    and "newline \<notin> set (take (max (buf_len (scanner r)) (maxTokenSize (scanner r)))
           (sc_buf (scanner r) @ sc_src (scanner r)))"
    and "max (buf_len (scanner r)) (maxTokenSize (scanner r))
           \<le> length (sc_buf (scanner r) @ sc_src (scanner r))"
  shows "fst (ReadLine rd r) = Inl (JSONDecodeError ''JSON line exceeded maximum buffer size'' Empty None)"
proof -
  from Scan_too_long [OF assms, of rd] obtain s' where
    "Scan rd (scanner r) = (None, s')" "sc_err s' = Some ErrTooLong" by blast
  then show ?thesis by (simp add: ReadLine_def Scanner_Err_def)
qed

lemma ReadLine_end:
  assumes "sc_err (scanner r) = None" and "sc_buf (scanner r) = []" and "sc_src (scanner r) = []"
    and "0 < sc_room (scanner r)"
  shows "fst (ReadLine rd r) = Inl EOF"
proof -
  from Scan_end [OF assms, of rd] obtain s' where
    "Scan rd (scanner r) = (None, s')" "sc_err s' = Some EOF" by blast
  then show ?thesis by (simp add: ReadLine_def Scanner_Err_def)
qed

lemma ReadLines_records:
  assumes "sc_err (scanner r) = None"
    and "sc_buf (scanner r) @ sc_src (scanner r) = concat (map (\<lambda>x. x @ [newline]) recs)"
    and "\<forall>x\<in>set recs. newline \<notin> set x \<and>
           length x < max (buf_len (scanner r)) (maxTokenSize (scanner r))"
    and "0 < buf_len (scanner r)"
  shows "ReadLines rd (Suc (length recs)) r = map (\<lambda>x. Inr (dropCR x)) recs @ [Inl EOF]"
  using assms
proof (induction recs arbitrary: r)
  case Nil
  then have "sc_buf (scanner r) = []" "sc_src (scanner r) = []" by simp_all
  moreover with Nil.prems(4) have "0 < sc_room (scanner r)" by (simp add: buf_len_def)
  ultimately have "fst (ReadLine rd r) = Inl EOF"
    using Nil.prems(1) by (intro ReadLine_end)
  then show ?case by (cases "ReadLine rd r") simp
next
  case (Cons x recs)
  have "sc_buf (scanner r) @ sc_src (scanner r) = x @ newline # concat (map (\<lambda>x. x @ [newline]) recs)"
    using Cons.prems(2) by simp
  from ReadLine_line [OF Cons.prems(1) this, of rd] Cons.prems(3)
  obtain r' where r': "ReadLine rd r = (Inr (dropCR x), r')" "sc_err (scanner r') = None"
    "sc_buf (scanner r') @ sc_src (scanner r') = concat (map (\<lambda>x. x @ [newline]) recs)"
    "maxTokenSize (scanner r') = maxTokenSize (scanner r)"
    "buf_len (scanner r) \<le> buf_len (scanner r')"
    "buf_len (scanner r') \<le> max (buf_len (scanner r)) (maxTokenSize (scanner r))"
    by auto
  have same: "max (buf_len (scanner r')) (maxTokenSize (scanner r')) =
              max (buf_len (scanner r)) (maxTokenSize (scanner r))"
    using r'(4,5,6) by auto
  have "ReadLines rd (Suc (length recs)) r' = map (\<lambda>x. Inr (dropCR x)) recs @ [Inl EOF]"
  proof (rule Cons.IH [OF r'(2) r'(3)])
    show "\<forall>x\<in>set recs. newline \<notin> set x \<and>
           length x < max (buf_len (scanner r')) (maxTokenSize (scanner r'))"
      using Cons.prems(3) same by simp
    show "0 < buf_len (scanner r')" using Cons.prems(4) r'(5) by simp
  qed
  with r'(1) show ?case by simp
qed

lemma ReadLines_bound:
  "max (buf_len (scanner r)) (maxTokenSize (scanner r)) \<le> B \<Longrightarrow>
   \<forall>res\<in>set (ReadLines rd n r). \<forall>token. res = Inr token \<longrightarrow> length token \<le> B"
proof (induction n arbitrary: r)
  case 0
  then show ?case by simp
next
  case (Suc n)
  obtain res s' where sc: "Scan rd (scanner r) = (res, s')" by (cases "Scan rd (scanner r)")
  from Scan_bound [OF sc] Suc.prems
  have b: "max (buf_len s') (maxTokenSize s') \<le> B"
    "\<forall>token. res = Some token \<longrightarrow> length token \<le> B" by auto
  obtain out r' where rl: "ReadLine rd r = (out, r')" by (cases "ReadLine rd r")
  with sc have r': "scanner r' = s'" "\<forall>token. out = Inr token \<longrightarrow> res = Some token"
    by (auto simp: ReadLine_def split: option.splits if_splits)
  from Suc.IH [of r'] b r' have "\<forall>res\<in>set (ReadLines rd n r'). \<forall>token. res = Inr token \<longrightarrow> length token \<le> B"
    by simp
  with rl r' b show ?case by auto
qed

lemma WriteLine_ok:
  assumes "w_err w = None" and "w_buf w = []" and "\<not> closed (w_wr w)"
  shows "WriteLine w data =
     (None, w\<lparr>w_wr := (w_wr w)\<lparr>written := written (w_wr w) @ data @ [newline]\<rparr>\<rparr>)"
  using assms by (simp add: WriteLine_def WriteString_def Flush_def)

lemma WriteLines_ok:
  assumes "w_err w = None" and "w_buf w = []" and "\<not> closed (w_wr w)"
  shows "WriteLines w recs =
     (None, w\<lparr>w_wr := (w_wr w)\<lparr>written := written (w_wr w) @ concat (map (\<lambda>x. x @ [newline]) recs)\<rparr>\<rparr>)"
  using assms
proof (induction recs arbitrary: w)
  case Nil
  then show ?case by simp
next
  case (Cons x recs)
  let ?w' = "w\<lparr>w_wr := (w_wr w)\<lparr>written := written (w_wr w) @ x @ [newline]\<rparr>\<rparr>"
  from WriteLine_ok [OF Cons.prems] have "WriteLine w x = (None, ?w')" .
  moreover have "WriteLines ?w' recs =
     (None, ?w'\<lparr>w_wr := (w_wr ?w')\<lparr>written := written (w_wr ?w') @ concat (map (\<lambda>x. x @ [newline]) recs)\<rparr>\<rparr>)"
    using Cons.prems by (intro Cons.IH) simp_all
  ultimately show ?case by simp
qed

lemma fresh_scanner:
  "sc_err (scanner (NewJSONLineReaderWithSize r m)) = None"
  "sc_buf (scanner (NewJSONLineReaderWithSize r m)) = []"
  "sc_src (scanner (NewJSONLineReaderWithSize r m)) = r"
  "buf_len (scanner (NewJSONLineReaderWithSize r m)) = 64 * 1024"
  "maxTokenSize (scanner (NewJSONLineReaderWithSize r m)) = m"
  by (simp_all add: NewJSONLineReaderWithSize_def buf_len_def)

lemma fresh_line:
  assumes "newline \<notin> set line" and "length line < max limit (64 * 1024)"
  shows "fst (ReadLine rd (NewJSONLineReaderWithSize (line @ newline # rest) limit)) = Inr (dropCR line)"
proof -
  let ?r = "NewJSONLineReaderWithSize (line @ newline # rest) limit"
  have "\<exists>r'. ReadLine rd ?r = (Inr (dropCR line), r') \<and> sc_err (scanner r') = None \<and>
           sc_buf (scanner r') @ sc_src (scanner r') = rest \<and>
           maxTokenSize (scanner r') = maxTokenSize (scanner ?r) \<and>
           buf_len (scanner ?r) \<le> buf_len (scanner r') \<and>
           buf_len (scanner r') \<le> max (buf_len (scanner ?r)) (maxTokenSize (scanner ?r))"
    using assms by (intro ReadLine_line) (simp_all add: fresh_scanner max.commute)
  then show ?thesis by auto
qed

lemma fresh_too_long:
  assumes "newline \<notin> set line" and "max limit (64 * 1024) \<le> length line"
  shows "fst (ReadLine rd (NewJSONLineReaderWithSize (line @ newline # rest) limit)) =
         Inl (JSONDecodeError ''JSON line exceeded maximum buffer size'' Empty None)"
proof (rule ReadLine_too_long)
  let ?r = "NewJSONLineReaderWithSize (line @ newline # rest) limit"
  show "sc_err (scanner ?r) = None" by (simp add: fresh_scanner)
  have "set (take (max limit (64 * 1024)) (line @ newline # rest)) \<subseteq> set line"
    using assms(2) by (auto dest: in_set_takeD)
  with assms(1) show "newline \<notin> set (take (max (buf_len (scanner ?r)) (maxTokenSize (scanner ?r)))
           (sc_buf (scanner ?r) @ sc_src (scanner ?r)))"
    by (auto simp: fresh_scanner max.commute)
  show "max (buf_len (scanner ?r)) (maxTokenSize (scanner ?r))
           \<le> length (sc_buf (scanner ?r) @ sc_src (scanner ?r))"
    using assms(2) by (simp add: fresh_scanner max.commute)
qed

text \<open>
  C2, as the code has it. The buffer the scanner is given has a capacity of 64 KiB and
  grows up to the configured maximum only, so the bound in force is the larger of the
  two. Whatever the reader delivers and in whatever pieces: no call of \<open>ReadLine\<close>
  returns a record longer than that bound; a line whose content is shorter than the
  bound is returned (without a trailing carriage return); a line whose content reaches
  the bound fails with the JSONDecodeError "JSON line exceeded maximum buffer size"; and
  the default maximum is 1024 * 1024 bytes.
\<close>

theorem ReadLine_size_limit:
  "(\<forall>res\<in>set (ReadLines rd n (NewJSONLineReaderWithSize r limit)).
      \<forall>token. res = Inr token \<longrightarrow> length token \<le> max limit (64 * 1024)) \<and>
   (newline \<notin> set line \<and> length line < max limit (64 * 1024) \<longrightarrow>
      fst (ReadLine rd (NewJSONLineReaderWithSize (line @ newline # rest) limit)) = Inr (dropCR line)) \<and>
   (newline \<notin> set line \<and> max limit (64 * 1024) \<le> length line \<longrightarrow>
      fst (ReadLine rd (NewJSONLineReaderWithSize (line @ newline # rest) limit)) =
        Inl (JSONDecodeError ''JSON line exceeded maximum buffer size'' Empty None)) \<and>
   NewJSONLineReader r = NewJSONLineReaderWithSize r (1024 * 1024)"
proof (intro conjI impI)
  show "\<forall>res\<in>set (ReadLines rd n (NewJSONLineReaderWithSize r limit)).
      \<forall>token. res = Inr token \<longrightarrow> length token \<le> max limit (64 * 1024)"
    by (rule ReadLines_bound) (simp add: fresh_scanner)
  show "NewJSONLineReader r = NewJSONLineReaderWithSize r (1024 * 1024)"
    by (simp add: NewJSONLineReader_def DefaultMaxBufferSize_def)
qed (simp_all add: fresh_line fresh_too_long)

lemma dropCR_replicate_x: "dropCR (replicate n (CHR ''x'')) = replicate n (CHR ''x'')"
  by (cases n) (simp_all add: dropCR_def)

text \<open>A two-byte line and a line of 64 KiB under the maximum 1024, read byte by byte.\<close>

theorem ReadLine_size_limit_witness:
  "fst (ReadLine (\<lambda>k. 0) (NewJSONLineReaderWithSize (''{}'' @ [newline]) 1024)) = Inr ''{}'' \<and>
   fst (ReadLine (\<lambda>k. 0) (NewJSONLineReaderWithSize (replicate (64 * 1024) (CHR ''x'') @ [newline]) 1024)) =
     Inl (JSONDecodeError ''JSON line exceeded maximum buffer size'' Empty None)"
  using
    ReadLine_size_limit [of "\<lambda>k. 0" 0 "[]" 1024 "''{}''" "[]"]
    ReadLine_size_limit [of "\<lambda>k. 0" 0 "[]" 1024 "replicate (64 * 1024) (CHR ''x'')" "[]"]
  by (simp add: newline_def dropCR_def)

text \<open>
  C2 as stated fails twice: under the maximum 1024 a line of 2048 bytes is returned (the
  case of the repository's own overflow test), and under the default maximum a line of
  exactly 1024 * 1024 bytes is refused.
\<close>

theorem limit_not_enforced_as_stated:
  "fst (ReadLine (\<lambda>k. k) (NewJSONLineReaderWithSize (replicate 2048 (CHR ''x'') @ [newline]) 1024)) =
     Inr (replicate 2048 (CHR ''x'')) \<and>
   fst (ReadLine (\<lambda>k. k) (NewJSONLineReader (replicate (1024 * 1024) (CHR ''x'') @ [newline]))) =
     Inl (JSONDecodeError ''JSON line exceeded maximum buffer size'' Empty None)"
  using
    fresh_line [of "replicate 2048 (CHR ''x'')" 1024 "\<lambda>k. k" "[]"]
    fresh_too_long [of "replicate (1024 * 1024) (CHR ''x'')" "1024 * 1024" "\<lambda>k. k" "[]"]
  by (simp add: newline_def dropCR_replicate_x NewJSONLineReader_def DefaultMaxBufferSize_def)

lemma roundtrip:
  assumes "\<forall>x\<in>set recs. newline \<notin> set x \<and> length x < max limit (64 * 1024)"
  shows "fst (WriteLines (NewJSONLineWriter stdout_Sink) recs) = None \<and>
     written (w_wr (snd (WriteLines (NewJSONLineWriter stdout_Sink) recs))) =
       concat (map (\<lambda>x. x @ [newline]) recs) \<and>
     ReadLines rd (Suc (length recs))
       (NewJSONLineReaderWithSize (written (w_wr (snd (WriteLines (NewJSONLineWriter stdout_Sink) recs)))) limit) =
       map (\<lambda>x. Inr (dropCR x)) recs @ [Inl EOF]"
proof -
  have w: "WriteLines (NewJSONLineWriter stdout_Sink) recs =
     (None, (NewJSONLineWriter stdout_Sink)\<lparr>w_wr := (w_wr (NewJSONLineWriter stdout_Sink))\<lparr>written :=
        written (w_wr (NewJSONLineWriter stdout_Sink)) @ concat (map (\<lambda>x. x @ [newline]) recs)\<rparr>\<rparr>)"
    by (rule WriteLines_ok) (simp_all add: NewJSONLineWriter_def stdout_Sink_def)
  then have wr: "written (w_wr (snd (WriteLines (NewJSONLineWriter stdout_Sink) recs))) =
     concat (map (\<lambda>x. x @ [newline]) recs)"
    by (simp add: NewJSONLineWriter_def stdout_Sink_def)
  have "ReadLines rd (Suc (length recs))
       (NewJSONLineReaderWithSize (concat (map (\<lambda>x. x @ [newline]) recs)) limit) =
       map (\<lambda>x. Inr (dropCR x)) recs @ [Inl EOF]"
    using assms by (intro ReadLines_records) (simp_all add: fresh_scanner max.commute)
  with w wr show ?thesis by simp
qed

text \<open>
  C8, as the code has it. For records free of newline bytes, not ending in a carriage
  return and shorter than the bound of the reader (the larger of its maximum and
  64 KiB): writing them in order with \<open>WriteLine\<close> succeeds and hands the writer
  underneath each record followed by exactly one newline, and reading that byte stream
  with \<open>ReadLine\<close>, in whatever pieces it arrives, yields the same records in the
  same order and then \<open>io.EOF\<close>.
\<close>

theorem write_then_read:
  "(\<forall>x\<in>set recs. newline \<notin> set x \<and> dropCR x = x \<and> length x < max limit (64 * 1024)) \<longrightarrow>
     fst (WriteLines (NewJSONLineWriter stdout_Sink) recs) = None \<and>
     written (w_wr (snd (WriteLines (NewJSONLineWriter stdout_Sink) recs))) =
       concat (map (\<lambda>x. x @ [newline]) recs) \<and>
     ReadLines rd (Suc (length recs))
       (NewJSONLineReaderWithSize (written (w_wr (snd (WriteLines (NewJSONLineWriter stdout_Sink) recs)))) limit) =
       map Inr recs @ [Inl EOF]"
proof
  assume a: "\<forall>x\<in>set recs. newline \<notin> set x \<and> dropCR x = x \<and> length x < max limit (64 * 1024)"
  then have "\<forall>x\<in>set recs. newline \<notin> set x \<and> length x < max limit (64 * 1024)" by simp
  from roundtrip [OF this, of rd]
  have r: "fst (WriteLines (NewJSONLineWriter stdout_Sink) recs) = None \<and>
     written (w_wr (snd (WriteLines (NewJSONLineWriter stdout_Sink) recs))) =
       concat (map (\<lambda>x. x @ [newline]) recs) \<and>
     ReadLines rd (Suc (length recs))
       (NewJSONLineReaderWithSize (written (w_wr (snd (WriteLines (NewJSONLineWriter stdout_Sink) recs)))) limit) =
       map (\<lambda>x. Inr (dropCR x)) recs @ [Inl EOF]" .
  have eq: "map (\<lambda>x. Inr (dropCR x) :: go_error + string) recs = map Inr recs"
    by (rule map_cong) (use a in auto)
  from r show "fst (WriteLines (NewJSONLineWriter stdout_Sink) recs) = None \<and>
     written (w_wr (snd (WriteLines (NewJSONLineWriter stdout_Sink) recs))) =
       concat (map (\<lambda>x. x @ [newline]) recs) \<and>
     ReadLines rd (Suc (length recs))
       (NewJSONLineReaderWithSize (written (w_wr (snd (WriteLines (NewJSONLineWriter stdout_Sink) recs)))) limit) =
       map Inr recs @ [Inl EOF]"
    unfolding eq .
qed

text \<open>Three records, one of them empty, read back byte by byte.\<close>

theorem write_then_read_witness:
  "fst (WriteLines (NewJSONLineWriter stdout_Sink) sample_records) = None \<and>
   written (w_wr (snd (WriteLines (NewJSONLineWriter stdout_Sink) sample_records))) =
     concat (map (\<lambda>x. x @ [newline]) sample_records) \<and>
   ReadLines (\<lambda>k. 0) (Suc (length sample_records))
     (NewJSONLineReaderWithSize
        (written (w_wr (snd (WriteLines (NewJSONLineWriter stdout_Sink) sample_records))))
        (1024 * 1024)) =
     map Inr sample_records @ [Inl EOF]"
proof -
  have "\<forall>x\<in>set sample_records. newline \<notin> set x \<and> dropCR x = x \<and>
          length x < max (1024 * 1024) (64 * 1024)"
    by (simp add: sample_records_def newline_def dropCR_def)
  with write_then_read [of sample_records "1024 * 1024" "\<lambda>k. 0"] show ?thesis by blast
qed

text \<open>
  C8 as stated fails: a record without a newline byte that ends in a carriage return
  comes back without it.
\<close>

theorem carriage_return_lost:
  "ReadLines (\<lambda>k. k) (Suc (length cr_records))
     (NewJSONLineReader
        (written (w_wr (snd (WriteLines (NewJSONLineWriter stdout_Sink) cr_records))))) =
     [Inr ''a'', Inl EOF] \<and>
   ReadLines (\<lambda>k. k) (Suc (length cr_records))
     (NewJSONLineReader
        (written (w_wr (snd (WriteLines (NewJSONLineWriter stdout_Sink) cr_records))))) \<noteq>
     map Inr cr_records @ [Inl EOF]"
proof -
  have "\<forall>x\<in>set cr_records. newline \<notin> set x \<and> length x < max (1024 * 1024) (64 * 1024)"
    by (simp add: cr_records_def newline_def)
  from roundtrip [OF this, of "\<lambda>k. k"]
  have "ReadLines (\<lambda>k. k) (Suc (length cr_records))
     (NewJSONLineReaderWithSize
        (written (w_wr (snd (WriteLines (NewJSONLineWriter stdout_Sink) cr_records)))) (1024 * 1024)) =
     map (\<lambda>x. Inr (dropCR x)) cr_records @ [Inl EOF]"
    by blast
  moreover have "map (\<lambda>x. Inr (dropCR x) :: go_error + string) cr_records @ [Inl EOF] = [Inr ''a'', Inl EOF]"
    by (simp add: cr_records_def dropCR_def)
  moreover have "map Inr cr_records @ [Inl EOF] \<noteq> [Inr ''a'', Inl EOF :: go_error + string]"
    by (simp add: cr_records_def)
  ultimately show ?thesis
    by (simp add: NewJSONLineReader_def DefaultMaxBufferSize_def del: ReadLines.simps)
qed

section \<open>Properties of the transport\<close>





lemma messageReaderLoop_for_frame:
  "cmd (messageReaderLoop_for rd parse ctx k reader t) = cmd t \<and>
   ready (messageReaderLoop_for rd parse ctx k reader t) = ready t \<and>
   writer (messageReaderLoop_for rd parse ctx k reader t) = writer t"
proof (induction rd parse ctx k reader t rule: messageReaderLoop_for.induct)
  case (1 rd parse ctx k reader t)
  then show ?case
    by (simp add: messageReaderLoop_for.simps [of rd parse ctx k reader t] OnError_def
        split: prod.splits sum.splits)
qed

lemma step_not_ready:
  assumes "cmd t \<noteq> None" and "\<not> ready t"
  shows "cmd (snd (step a t)) \<noteq> None \<and> \<not> ready (snd (step a t)) \<and>
         stdin_bytes (snd (step a t)) = stdin_bytes t \<and>
         (\<forall>d. a = OpWrite d \<longrightarrow>
            fst (step a t) = Some (CLIConnectionError ''transport is not ready for writing'' None))"
proof (cases a)
  case (OpConnect environ os)
  with assms show ?thesis by (simp add: step_def Connect_def)
next
  case (OpWrite d)
  with assms show ?thesis by (simp add: step_def Write_def)
next
  case (OpClose outcome)
  with assms show ?thesis
    by (cases "writer t")
       (simp_all add: step_def Close_def Let_def stdin_bytes_def close_pipe_def)
next
  case (OpOnError e)
  with assms show ?thesis by (simp add: step_def OnError_def stdin_bytes_def)
next
  case (OpReaderLoop rd parse ctx)
  note keep = messageReaderLoop_for_frame
  with OpReaderLoop assms show ?thesis
    by (cases "stdout t") (simp_all add: step_def messageReaderLoop_def Let_def stdin_bytes_def)
next
  case OpChildGone
  with assms show ?thesis
    by (cases "writer t") (simp_all add: step_def stdin_bytes_def close_pipe_def)
qed

lemma run_not_ready:
  assumes "cmd t \<noteq> None" and "\<not> ready t"
  shows "\<not> ready (snd (run ops t)) \<and> stdin_bytes (snd (run ops t)) = stdin_bytes t \<and>
         (\<forall>i<length ops. \<forall>d. ops ! i = OpWrite d \<longrightarrow>
            fst (run ops t) ! i = Some (CLIConnectionError ''transport is not ready for writing'' None))"
  using assms
proof (induction ops arbitrary: t)
  case Nil
  then show ?case by simp
next
  case (Cons a ops)
  obtain e t' where st: "step a t = (e, t')" by (cases "step a t")
  from step_not_ready [OF Cons.prems, of a] st
  have t': "cmd t' \<noteq> None" "\<not> ready t'" "stdin_bytes t' = stdin_bytes t"
    and w: "\<forall>d. a = OpWrite d \<longrightarrow> e = Some (CLIConnectionError ''transport is not ready for writing'' None)"
    by auto
  obtain es t'' where r: "run ops t' = (es, t'')" by (cases "run ops t'")
  from Cons.IH [OF t'(1,2)] r t'(3)
  have ih: "\<not> ready t''" "stdin_bytes t'' = stdin_bytes t"
    "\<forall>i<length ops. \<forall>d. ops ! i = OpWrite d \<longrightarrow>
       es ! i = Some (CLIConnectionError ''transport is not ready for writing'' None)"
    by auto
  have "\<forall>i<length (a # ops). \<forall>d. (a # ops) ! i = OpWrite d \<longrightarrow>
       (e # es) ! i = Some (CLIConnectionError ''transport is not ready for writing'' None)"
  proof (intro allI impI)
    fix i d assume "i < length (a # ops)" "(a # ops) ! i = OpWrite d"
    then show "(e # es) ! i = Some (CLIConnectionError ''transport is not ready for writing'' None)"
      using w ih(3) by (cases i) auto
  qed
  with st r ih show ?case by simp
qed

lemma step_wired: "wired t \<Longrightarrow> wired (snd (step a t))"
proof (cases a)
  case (OpConnect environ os)
  assume "wired t"
  with OpConnect show ?thesis
    by (cases os) (simp_all add: step_def Connect_def wired_def Let_def)
next
  case (OpWrite d)
  assume "wired t"
  with OpWrite show ?thesis
    by (auto simp: step_def Write_def wired_def split: option.splits prod.splits)
next
  case (OpClose outcome)
  assume "wired t"
  with OpClose show ?thesis
    by (auto simp: step_def Close_def wired_def Let_def)
next
  case (OpOnError e)
  assume "wired t"
  with OpOnError show ?thesis by (simp add: step_def OnError_def wired_def)
next
  case (OpReaderLoop rd parse ctx)
  assume "wired t"
  with OpReaderLoop messageReaderLoop_for_frame show ?thesis
    by (cases "stdout t") (simp_all add: step_def messageReaderLoop_def Let_def wired_def)
next
  case OpChildGone
  assume "wired t"
  with OpChildGone show ?thesis by (simp add: step_def wired_def)
qed

lemma run_wired: "wired t \<Longrightarrow> wired (snd (run ops t))"
proof (induction ops arbitrary: t)
  case Nil
  then show ?case by simp
next
  case (Cons a ops)
  from step_wired [OF Cons.prems, of a] have "wired (snd (step a t))" .
  from Cons.IH [OF this] show ?case
    by (cases "step a t"; cases "run ops (snd (step a t))") simp
qed

lemma new_wired: "wired (NewSubprocessCLITransport p c e)"
  by (simp add: wired_def NewSubprocessCLITransport_def)

lemma Close_connected:
  "cmd t \<noteq> None \<Longrightarrow> cmd (snd (Close outcome t)) \<noteq> None \<and> \<not> ready (snd (Close outcome t))"
  by (simp add: Close_def Let_def)

lemma Write_failed:
  "wired t \<Longrightarrow> cmd t \<noteq> None \<Longrightarrow> fst (Write t d) \<noteq> None \<Longrightarrow>
   cmd (snd (Write t d)) \<noteq> None \<and> \<not> ready (snd (Write t d))"
  by (auto simp: Write_def wired_def split: option.splits prod.splits if_splits)

text \<open>
  C10, as the code has it. Let a transport have a process handle (\<open>Connect\<close> got past
  its first check at some point of its history). Once \<open>Close\<close> has been called on it, or
  a \<open>Write\<close> has failed, the ready flag is false and stays false whatever is called
  afterwards, a repeated \<open>Connect\<close> included; every later \<open>Write\<close> returns the
  connection error "transport is not ready for writing", and no byte is handed to the
  child's standard input any more.
\<close>

theorem readiness_never_restored:
  "t = snd (run history (NewSubprocessCLITransport p c e)) \<and> cmd t \<noteq> None \<and>
   (t' = snd (Close outcome t) \<or> fst (Write t d) \<noteq> None \<and> t' = snd (Write t d))
   \<longrightarrow> \<not> ready t' \<and> \<not> ready (snd (run ops t')) \<and>
       stdin_bytes (snd (run ops t')) = stdin_bytes t' \<and>
       (\<forall>i<length ops. \<forall>d'. ops ! i = OpWrite d' \<longrightarrow>
          fst (run ops t') ! i = Some (CLIConnectionError ''transport is not ready for writing'' None))"
proof
  assume a: "t = snd (run history (NewSubprocessCLITransport p c e)) \<and> cmd t \<noteq> None \<and>
   (t' = snd (Close outcome t) \<or> fst (Write t d) \<noteq> None \<and> t' = snd (Write t d))"
  then have w: "wired t" using run_wired [OF new_wired] by simp
  from a w have t': "cmd t' \<noteq> None \<and> \<not> ready t'"
    using Close_connected [of t outcome] Write_failed [of t d] by auto
  with run_not_ready [of t' ops]
  show "\<not> ready t' \<and> \<not> ready (snd (run ops t')) \<and>
       stdin_bytes (snd (run ops t')) = stdin_bytes t' \<and>
       (\<forall>i<length ops. \<forall>d'. ops ! i = OpWrite d' \<longrightarrow>
          fst (run ops t') ! i = Some (CLIConnectionError ''transport is not ready for writing'' None))"
    by simp
qed

lemmas transport_simps = step_def Connect_def Write_def Close_def Let_def
  NewSubprocessCLITransport_def NewJSONLineWriter_def WriteLine_def WriteString_def Flush_def
  close_pipe_def stdin_bytes_def fresh_transport_def connected_transport_def SDKVersion_def

lemma connected_transport_cmd: "cmd connected_transport \<noteq> None"
  by (simp add: transport_simps)

text \<open>A connected transport is closed; \<open>Connect\<close> and \<open>Write\<close> follow.\<close>

theorem readiness_never_restored_witness:
  "\<not> ready (snd (Close (Exits None) connected_transport)) \<and>
   \<not> ready (snd (run [OpConnect [] (Started [] []), OpWrite ''{}'']
                (snd (Close (Exits None) connected_transport)))) \<and>
   fst (run [OpConnect [] (Started [] []), OpWrite ''{}'']
          (snd (Close (Exits None) connected_transport))) ! 1 =
     Some (CLIConnectionError ''transport is not ready for writing'' None)"
proof -
  have "connected_transport = snd (run [OpConnect [] (Started [] [])] (NewSubprocessCLITransport ''claude'' [] []))"
    by (simp add: connected_transport_def fresh_transport_def)
  with readiness_never_restored [of connected_transport "[OpConnect [] (Started [] [])]" "''claude''" "[]" "[]"
      "snd (Close (Exits None) connected_transport)" "Exits None" "[]"
      "[OpConnect [] (Started [] []), OpWrite ''{}'']"]
    connected_transport_cmd
  show ?thesis by simp
qed

text \<open>
  C10 as stated fails on a transport that was never connected: there a \<open>Write\<close>
  fails and \<open>Close\<close> returns at once, no process handle exists, and a later
  \<open>Connect\<close> makes the transport ready, so that the next \<open>Write\<close> succeeds.
\<close>

theorem fresh_transport_reconnects:
  "fst (run [OpWrite ''{}'', OpClose (Exits None), OpConnect [] (Started [] []), OpWrite ''{}'']
          fresh_transport) =
     [Some (CLIConnectionError ''transport is not ready for writing'' None), None, None, None] \<and>
   ready (snd (run [OpWrite ''{}'', OpClose (Exits None), OpConnect [] (Started [] [])] fresh_transport)) \<and>
   stdin_bytes (snd (run [OpWrite ''{}'', OpClose (Exits None), OpConnect [] (Started [] []),
                          OpWrite ''{}''] fresh_transport)) = ''{}'' @ [newline]"
  by (simp add: transport_simps)




















section \<open>Properties of the client\<close>

lemma forward_live:
  "forward (\<lambda>k. False) k msgs closed' =
     (takeWhile (\<lambda>m. \<not> isResult m) msgs @ take 1 (dropWhile (\<lambda>m. \<not> isResult m) msgs),
      closed' \<or> (\<exists>m\<in>set msgs. isResult m),
      drop 1 (dropWhile (\<lambda>m. \<not> isResult m) msgs))"
  by (induction msgs arbitrary: k) auto

text \<open>
  C6. On a connected client whose context is not cancelled: when the messages the
  session's channel delivers are \<open>before\<close>, free of result messages, then a result
  message \<open>r\<close>, then \<open>after\<close>, \<open>ReceiveResponse\<close> yields \<open>before\<close> and
  \<open>r\<close> in that order and closes its channel, and \<open>after\<close> is left in the session's
  channel, a second result message in it included. When no result message is delivered,
  all messages are yielded in order, and the returned channel is closed exactly when the
  session's channel is.
\<close>

theorem ReceiveResponse_until_result:
  "connected c \<and> query c = Some q \<longrightarrow>
     (queue (GetMessages q) = before @ r # after \<and> (\<forall>m\<in>set before. \<not> isResult m) \<and> isResult r
        \<longrightarrow> ReceiveResponse (\<lambda>k. False) c =
             (before @ [r], True, c\<lparr>query := Some (q\<lparr>q_messages := (q_messages q)\<lparr>queue := after\<rparr>\<rparr>)\<rparr>)) \<and>
     ((\<forall>m\<in>set (queue (GetMessages q)). \<not> isResult m)
        \<longrightarrow> ReceiveResponse (\<lambda>k. False) c =
             (queue (GetMessages q), chan_closed (GetMessages q),
              c\<lparr>query := Some (q\<lparr>q_messages := (q_messages q)\<lparr>queue := []\<rparr>\<rparr>)\<rparr>))"
proof (intro impI conjI)
  assume c: "connected c \<and> query c = Some q"
  {
    assume a: "queue (GetMessages q) = before @ r # after \<and> (\<forall>m\<in>set before. \<not> isResult m) \<and> isResult r"
    then have tw: "takeWhile (\<lambda>m. \<not> isResult m) (before @ r # after) = before"
      and dw: "dropWhile (\<lambda>m. \<not> isResult m) (before @ r # after) = r # after"
      by (simp_all add: takeWhile_append2 dropWhile_append2)
    have "forward (\<lambda>k. False) 0 (queue (GetMessages q)) (chan_closed (GetMessages q)) =
        (before @ [r], True, after)"
      using a by (simp add: forward_live tw dw)
    with c show "ReceiveResponse (\<lambda>k. False) c =
             (before @ [r], True, c\<lparr>query := Some (q\<lparr>q_messages := (q_messages q)\<lparr>queue := after\<rparr>\<rparr>)\<rparr>)"
      by (simp add: ReceiveResponse_def)
  }
  {
    assume a: "\<forall>m\<in>set (queue (GetMessages q)). \<not> isResult m"
    then have tw: "takeWhile (\<lambda>m. \<not> isResult m) (queue (GetMessages q)) = queue (GetMessages q)"
      and dw: "dropWhile (\<lambda>m. \<not> isResult m) (queue (GetMessages q)) = []"
      by simp_all
    have "forward (\<lambda>k. False) 0 (queue (GetMessages q)) (chan_closed (GetMessages q)) =
        (queue (GetMessages q), chan_closed (GetMessages q), [])"
      using a by (simp add: forward_live tw dw)
    with c show "ReceiveResponse (\<lambda>k. False) c =
             (queue (GetMessages q), chan_closed (GetMessages q),
              c\<lparr>query := Some (q\<lparr>q_messages := (q_messages q)\<lparr>queue := []\<rparr>\<rparr>)\<rparr>)"
      by (simp add: ReceiveResponse_def)
  }
qed

text \<open>
  A user message and a result, twice over: the first call stops at the first result.
  Without a result the call keeps waiting.
\<close>

theorem ReceiveResponse_until_result_witness:
  "ReceiveResponse (\<lambda>k. False) (session [user_hi, result_ok, user_hi, result_ok]) =
     ([user_hi, result_ok], True, session [user_hi, result_ok]) \<and>
   ReceiveResponse (\<lambda>k. False) (session [user_hi, user_hi]) =
     ([user_hi, user_hi], False, session [])"
  using
    ReceiveResponse_until_result [of "session [user_hi, result_ok, user_hi, result_ok]"
      "\<lparr>q_messages = \<lparr>queue = [user_hi, result_ok, user_hi, result_ok], chan_closed = False\<rparr>\<rparr>"
      "[user_hi]" result_ok "[user_hi, result_ok]"]
    ReceiveResponse_until_result [of "session [user_hi, user_hi]"
      "\<lparr>q_messages = \<lparr>queue = [user_hi, user_hi], chan_closed = False\<rparr>\<rparr>"
      "[]" result_ok "[]"]
  by (simp add: session_def GetMessages_def isResult_def user_hi_def result_ok_def)

end
